theory Spec2Isabelle
  imports
    Main
    "HOL-Library.Multiset"
    "HOL-Library.List_Lexorder"
    "HOL-Library.Char_ord"
    "HOL-Library.Product_Lexorder"
    "HOL-Library.Sublist"
    "HOL-Library.Log_Nat"
begin

section \<open>mypy\_primer: the orchestrator of \<^verbatim>\<open>src/mypy_primer/main.py\<close>\<close>

text \<open>
  The theory embeds the functions of \<^verbatim>\<open>main.py\<close> that select and shard the projects
  (\<^verbatim>\<open>select_projects\<close>), judge a bisection step (\<^verbatim>\<open>bisect.are_results_good\<close>), drive the
  bisection (\<^verbatim>\<open>bisect\<close>), compute the return code of a differential run (\<^verbatim>\<open>primer\<close>) and
  turn it into the exit code of the process (\<^verbatim>\<open>main\<close>).

  Python strings are \<^typ>\<open>string\<close>, Python integers are \<^typ>\<open>int\<close>, an exception is a value of
  \<open>error\<close> and a function that can raise returns \<open>error + 'a\<close> with \<open>Inl\<close> for the
  exception. The modules \<^verbatim>\<open>model\<close>, \<^verbatim>\<open>globals\<close>, \<^verbatim>\<open>projects\<close>, \<^verbatim>\<open>utils\<close> and \<^verbatim>\<open>git_utils\<close>
  are imported by \<^verbatim>\<open>main.py\<close>: their classes are records holding the attributes
  that \<^verbatim>\<open>main.py\<close> reads, and their functions are parameters of the definitions that call
  them.
\<close>

subsection \<open>Data\<close>

text \<open>
  The exceptions that \<^verbatim>\<open>main.py\<close> raises itself (\<^verbatim>\<open>ValueError\<close>, \<^verbatim>\<open>AssertionError\<close>), those
  its subscripts and builtins raise (\<^verbatim>\<open>KeyError\<close>, \<^verbatim>\<open>IndexError\<close>, \<^verbatim>\<open>ValueError\<close> of \<^verbatim>\<open>min\<close>),
  the \<^verbatim>\<open>subprocess.CalledProcessError\<close> of a failed command, and any other subclass of
  \<^verbatim>\<open>Exception\<close> raised by a collaborator.
\<close>

datatype error =
    ValueError string
  | AssertionError
  | KeyError string
  | IndexError
  | CalledProcessError string
  | OtherException string

text \<open>
  \<^verbatim>\<open>model.Project\<close>: the attributes read in \<^verbatim>\<open>main.py\<close>. \<^verbatim>\<open>name\<close> is a property of the
  project (the key of the result dictionaries), \<^verbatim>\<open>cost\<close> a Python integer.
\<close>

record Project =
  location :: string
  name :: string
  revision :: "string option"
  expected_success :: bool
  cost :: int

text \<open>
  \<^verbatim>\<open>model.MypyResult\<close>: \<^verbatim>\<open>main.py\<close> reads \<^verbatim>\<open>output\<close> and \<^verbatim>\<open>success\<close>. The word
  \<open>output\<close> is reserved in theories, so the attribute is \<open>output_text\<close>.
\<close>

record MypyResult =
  output_text :: string
  success :: bool

text \<open>
  The result of \<^verbatim>\<open>Project.primer_result\<close>: \<^verbatim>\<open>primer\<close> reads \<^verbatim>\<open>old_result\<close> and the
  string \<^verbatim>\<open>diff\<close>; the three renderings are the strings its \<^verbatim>\<open>format_\<close> methods return.
\<close>

record PrimerResult =
  old_result :: MypyResult
  diff :: string
  format_full :: string
  format_diff_only :: string
  format_concise :: string

text \<open>
  The options in \<^verbatim>\<open>ctx.get()\<close> that the embedded functions read. An option that is
  \<^verbatim>\<open>None\<close> or a value is an \<^typ>\<open>'a option\<close>. Two names are taken by the records above:
  the option \<^verbatim>\<open>expected_success\<close> is \<open>opt_expected_success\<close> and the option \<^verbatim>\<open>output\<close> is
  \<open>opt_output\<close>.
\<close>

record Args =
  local_project :: "string option"
  project_selector :: "string option"
  opt_expected_success :: bool
  project_date :: "string option"
  num_shards :: "int option"
  shard_index :: "int option"
  bisect_output :: "string option"
  old_success :: bool
  opt_output :: string
  new_mypy :: "string option"
  new_typeshed :: "string option"
  old_typeshed :: "string option"

text \<open>Python's truth value of an optional string and of an optional integer.\<close>

definition truthy_str :: "string option \<Rightarrow> bool" where
  "truthy_str s = (case s of None \<Rightarrow> False | Some t \<Rightarrow> t \<noteq> [])"

definition truthy_int :: "int option \<Rightarrow> bool" where
  "truthy_int n = (case n of None \<Rightarrow> False | Some k \<Rightarrow> k \<noteq> 0)"

text \<open>\<^verbatim>\<open>xs[i]\<close> for a Python integer \<open>i\<close>: a negative index counts from the end.\<close>

definition py_index :: "'a list \<Rightarrow> int \<Rightarrow> error + 'a" where
  "py_index xs i =
     (if 0 \<le> i \<and> i < int (length xs) then Inr (xs ! nat i)
      else if i < 0 \<and> - int (length xs) \<le> i then Inr (xs ! nat (int (length xs) + i))
      else Inl IndexError)"

subsection \<open>Sharding (lines 159--167)\<close>

text \<open>
  \<^verbatim>\<open>sorted(projects, key=lambda p: (p.cost, p.location), reverse=True)\<close>: Python compares the
  key tuples lexicographically and strings by code point; the sort is stable and
  \<^verbatim>\<open>reverse=True\<close> keeps the input order of equal keys, which is sorting the reversed list
  upwards and reversing the result.
\<close>

definition sort_key_of :: "Project \<Rightarrow> int \<times> string" where
  "sort_key_of p = (cost p, location p)"

definition sorted_reverse :: "Project list \<Rightarrow> Project list" where
  "sorted_reverse projects = rev (sort_key sort_key_of (rev projects))"

text \<open>
  \<^verbatim>\<open>min(range(num_shards), key=lambda i: shard_costs[i])\<close> for \<open>num_shards \<ge> 1\<close>: \<^verbatim>\<open>min\<close> keeps
  the first index and replaces it only by an index of strictly smaller cost.
\<close>

definition min_step :: "int list \<Rightarrow> nat \<Rightarrow> nat \<Rightarrow> nat" where
  "min_step shard_costs b i = (if shard_costs ! i < shard_costs ! b then i else b)"

definition min_shard :: "nat \<Rightarrow> int list \<Rightarrow> nat" where
  "min_shard n shard_costs = foldl (min_step shard_costs) 0 [1..<n]"

text \<open>The body of the loop of lines 163--166, on the pair of the two lists it updates.\<close>

definition assign :: "nat \<Rightarrow> int list \<times> Project list list \<Rightarrow> Project
    \<Rightarrow> int list \<times> Project list list" where
  "assign n st p =
     (let shard_costs = fst st; shard_projects = snd st; m = min_shard n shard_costs
      in (shard_costs[m := shard_costs ! m + cost p],
          shard_projects[m := shard_projects ! m @ [p]]))"

text \<open>Lines 161--166: the lists \<^verbatim>\<open>shard_costs\<close> and \<^verbatim>\<open>shard_projects\<close> after the loop.\<close>

definition shard_loop :: "nat \<Rightarrow> Project list \<Rightarrow> int list \<times> Project list list" where
  "shard_loop n projects =
     foldl (assign n) (replicate n 0, replicate n []) (sorted_reverse projects)"

subsection \<open>\<^verbatim>\<open>select_projects\<close> (lines 140--168)\<close>

text \<open>
  The parameters are the collaborators: \<open>from_location\<close> is
  \<^verbatim>\<open>Project.from_location\<close>, \<open>get_projects\<close> the list that \<^verbatim>\<open>projects.get_projects()\<close> returns,
  and \<open>re_search_I sel s\<close> the truth value of \<^verbatim>\<open>re.search(sel, s, flags=re.I)\<close>.

  \<open>filter_projects\<close> is the list \<^verbatim>\<open>projects\<close> of line 155, the generators of lines 145--153
  run to their end. A negative \<^verbatim>\<open>num_shards\<close> makes both lists empty, and the first
  \<^verbatim>\<open>min\<close> of the loop, which runs at least once since \<^verbatim>\<open>projects\<close> is not empty there,
  raises \<^verbatim>\<open>ValueError\<close>.
\<close>

definition filter_projects ::
  "Project list \<Rightarrow> (string \<Rightarrow> string \<Rightarrow> bool) \<Rightarrow> Args \<Rightarrow> Project list" where
  "filter_projects get_projects re_search_I ARGS =
     (let it1 = (if truthy_str (project_selector ARGS)
                 then filter (\<lambda>p. re_search_I (the (project_selector ARGS)) (location p))
                        get_projects
                 else get_projects);
          it2 = (if opt_expected_success ARGS then filter expected_success it1 else it1)
      in if truthy_str (project_date ARGS)
         then map (\<lambda>p. p\<lparr>revision := project_date ARGS\<rparr>) it2
         else it2)"

definition select_projects ::
  "(string \<Rightarrow> Project) \<Rightarrow> Project list \<Rightarrow> (string \<Rightarrow> string \<Rightarrow> bool) \<Rightarrow> Args
    \<Rightarrow> error + Project list" where
  "select_projects from_location get_projects re_search_I ARGS =
     (if truthy_str (local_project ARGS) then Inr [from_location (the (local_project ARGS))]
      else
        let projects = filter_projects get_projects re_search_I ARGS
        in if projects = [] then Inl (ValueError ''No projects selected!'')
           else if truthy_int (num_shards ARGS) then
             (case shard_index ARGS of
                None \<Rightarrow> Inl AssertionError
              | Some i \<Rightarrow>
                  if the (num_shards ARGS) < 0
                  then Inl (ValueError ''min() arg is an empty sequence'')
                  else py_index (snd (shard_loop (nat (the (num_shards ARGS))) projects)) i)
           else Inr projects)"

subsection \<open>The collaborators and the trace of a run\<close>

text \<open>
  What a coroutine of \<^verbatim>\<open>main.py\<close> does to the outside is a list of events, in the order in
  which the calls are made. The tasks handed to one \<^verbatim>\<open>asyncio.gather\<close>, \<^verbatim>\<open>asyncio.wait\<close> or
  \<^verbatim>\<open>asyncio.as_completed\<close> run concurrently: their events are the list under \<open>Gather\<close>.
\<close>

datatype event =
    Setup_mypy string
  | Setup_new_and_old_mypy
  | Setup_new_and_old_typeshed
  | Project_setup Project
  | Run_mypy string Project
  | Primer_result Project
  | Run "string list"
  | Get_revision string
  | Print string
  | Print_traceback error
  | Gather "event list"

text \<open>
  The collaborators, as functions of a state \<open>'w\<close> of the outside (file system, checkouts,
  installed checkers). \<open>x_setup_mypy d\<close> is \<^verbatim>\<open>setup_mypy(base_dir / d, ...)\<close> and returns
  the path of the checker; \<open>x_is_dir\<close> is \<^verbatim>\<open>repo_dir.is_dir()\<close>; \<open>x_run_mypy exe p\<close> is
  \<^verbatim>\<open>p.run_mypy(exe, typeshed_dir=None, mypy_path=[])\<close>; \<open>x_run argv\<close> is
  \<^verbatim>\<open>run(argv, cwd=repo_dir)\<close> and returns the standard output of the command;
  \<open>x_primer_results ps\<close> are the outcomes of the futures \<^verbatim>\<open>p.primer_result(...)\<close> in the
  order in which \<^verbatim>\<open>asyncio.as_completed\<close> yields them; \<open>x_re_search pat s\<close> is the truth
  value of \<^verbatim>\<open>re.search(pat, s)\<close>.
\<close>

record 'w env =
  x_from_location :: "string \<Rightarrow> Project"
  x_get_projects :: "Project list"
  x_re_search :: "string \<Rightarrow> string \<Rightarrow> bool"
  x_re_search_I :: "string \<Rightarrow> string \<Rightarrow> bool"
  x_strip_colour_code :: "string \<Rightarrow> string"
  x_setup_mypy :: "string \<Rightarrow> 'w \<Rightarrow> error + string \<times> 'w"
  x_setup_new_and_old_mypy :: "'w \<Rightarrow> error + 'w"
  x_setup_new_and_old_typeshed :: "'w \<Rightarrow> error + 'w"
  x_is_dir :: "'w \<Rightarrow> bool"
  x_project_setup :: "Project \<Rightarrow> 'w \<Rightarrow> error + 'w"
  x_run_mypy :: "string \<Rightarrow> Project \<Rightarrow> 'w \<Rightarrow> error + MypyResult"
  x_run :: "string list \<Rightarrow> 'w \<Rightarrow> error + string \<times> 'w"
  x_get_revision :: "string \<Rightarrow> 'w \<Rightarrow> error + string"
  x_primer_results :: "Project list \<Rightarrow> 'w \<Rightarrow> (error + PrimerResult) list"

text \<open>
  A computation yields its trace and either the exception that ended it or its value.
  \<open>and_then\<close> is sequencing: an exception ends the sequence, the traces are appended.
\<close>

type_synonym 'a outcome = "event list \<times> (error + 'a)"

definition and_then :: "'a outcome \<Rightarrow> ('a \<Rightarrow> 'b outcome) \<Rightarrow> 'b outcome" where
  "and_then m f =
     (case m of
        (tr, Inl e) \<Rightarrow> (tr, Inl e)
      | (tr, Inr a) \<Rightarrow> (case f a of (tr', r) \<Rightarrow> (tr @ tr', r)))"

definition concurrently :: "'a outcome \<Rightarrow> 'a outcome" where
  "concurrently m = (case m of (tr, r) \<Rightarrow> ([Gather tr], r))"

definition py_assert :: "bool \<Rightarrow> unit outcome" where
  "py_assert b = ([], if b then Inr () else Inl AssertionError)"

definition select_projects_of :: "'w env \<Rightarrow> Args \<Rightarrow> Project list outcome" where
  "select_projects_of E ARGS =
     ([], select_projects (x_from_location E) (x_get_projects E) (x_re_search_I E) ARGS)"

definition setup_mypy :: "'w env \<Rightarrow> string \<Rightarrow> 'w \<Rightarrow> (string \<times> 'w) outcome" where
  "setup_mypy E d w = ([Setup_mypy d], x_setup_mypy E d w)"

definition run :: "'w env \<Rightarrow> string list \<Rightarrow> 'w \<Rightarrow> (string \<times> 'w) outcome" where
  "run E argv w = ([Run argv], x_run E argv w)"

definition run_mypy :: "'w env \<Rightarrow> string \<Rightarrow> 'w \<Rightarrow> Project \<Rightarrow> MypyResult outcome" where
  "run_mypy E exe w p = ([Run_mypy exe p], x_run_mypy E exe p w)"

text \<open>
  \<^verbatim>\<open>await asyncio.gather(*[f(x) for x in xs])\<close>: the values in the order of \<open>xs\<close>, or an
  exception of one of the tasks. The tasks are taken in the order of the list.
\<close>

fun gather_seq :: "('a \<Rightarrow> 'b outcome) \<Rightarrow> 'a list \<Rightarrow> 'b list outcome" where
  "gather_seq f [] = ([], Inr [])"
| "gather_seq f (x # xs) =
     and_then (f x) (\<lambda>y. and_then (gather_seq f xs) (\<lambda>ys. ([], Inr (y # ys))))"

definition gather :: "('a \<Rightarrow> 'b outcome) \<Rightarrow> 'a list \<Rightarrow> 'b list outcome" where
  "gather f xs = concurrently (gather_seq f xs)"

text \<open>\<^verbatim>\<open>dict(pairs)\<close>: a later pair replaces an earlier one with the same key.\<close>

definition dict :: "('k \<times> 'v) list \<Rightarrow> ('k \<rightharpoonup> 'v)" where
  "dict pairs = map_of (rev pairs)"

text \<open>\<^verbatim>\<open>d[k]\<close> on a dictionary.\<close>

definition getitem :: "(string \<rightharpoonup> 'v) \<Rightarrow> string \<Rightarrow> error + 'v" where
  "getitem d k = (case d k of None \<Rightarrow> Inl (KeyError k) | Some v \<Rightarrow> Inr v)"

text \<open>
  \<^verbatim>\<open>any\<close> and \<^verbatim>\<open>all\<close> over a generator: the elements are computed one by one, the first
  true (false) one decides, and an exception raised on the way ends the call.
\<close>

fun py_any :: "('a \<Rightarrow> error + bool) \<Rightarrow> 'a list \<Rightarrow> error + bool" where
  "py_any f [] = Inr False"
| "py_any f (x # xs) =
     (case f x of Inl e \<Rightarrow> Inl e | Inr b \<Rightarrow> if b then Inr True else py_any f xs)"

fun py_all :: "('a \<Rightarrow> error + bool) \<Rightarrow> 'a list \<Rightarrow> error + bool" where
  "py_all f [] = Inr True"
| "py_all f (x # xs) =
     (case f x of Inl e \<Rightarrow> Inl e | Inr b \<Rightarrow> if b then py_all f xs else Inr False)"

subsection \<open>\<^verbatim>\<open>bisect.are_results_good\<close> (lines 272--280)\<close>

text \<open>
  The closure reads \<^verbatim>\<open>ARGS\<close>, \<^verbatim>\<open>projects\<close> and \<^verbatim>\<open>old_results\<close> of the enclosing call.
  \<open>re_search\<close> and \<open>strip_colour_code\<close> are \<^verbatim>\<open>re.search\<close> and \<^verbatim>\<open>utils.strip_colour_code\<close>.
\<close>

definition pattern_found ::
  "(string \<Rightarrow> string \<Rightarrow> bool) \<Rightarrow> (string \<Rightarrow> string) \<Rightarrow> string
    \<Rightarrow> (string \<rightharpoonup> MypyResult) \<Rightarrow> Project \<Rightarrow> error + bool" where
  "pattern_found re_search strip_colour_code pat results project =
     (case getitem results (name project) of
        Inl e \<Rightarrow> Inl e
      | Inr r \<Rightarrow> Inr (re_search pat (strip_colour_code (output_text r))))"

definition same_output ::
  "(string \<rightharpoonup> MypyResult) \<Rightarrow> (string \<rightharpoonup> MypyResult) \<Rightarrow> Project \<Rightarrow> error + bool" where
  "same_output old_results results project =
     (case getitem results (name project) of
        Inl e \<Rightarrow> Inl e
      | Inr r \<Rightarrow>
          (case getitem old_results (name project) of
             Inl e \<Rightarrow> Inl e
           | Inr r0 \<Rightarrow> Inr (output_text r = output_text r0)))"

definition are_results_good ::
  "(string \<Rightarrow> string \<Rightarrow> bool) \<Rightarrow> (string \<Rightarrow> string) \<Rightarrow> Args \<Rightarrow> Project list
    \<Rightarrow> (string \<rightharpoonup> MypyResult) \<Rightarrow> (string \<rightharpoonup> MypyResult) \<Rightarrow> error + bool" where
  "are_results_good re_search strip_colour_code ARGS projects old_results results =
     (if truthy_str (bisect_output ARGS)
      then (case py_any (pattern_found re_search strip_colour_code (the (bisect_output ARGS))
                           results) projects of
              Inl e \<Rightarrow> Inl e
            | Inr b \<Rightarrow> Inr (\<not> b))
      else py_all (same_output old_results results) projects)"


subsection \<open>\<^verbatim>\<open>bisect\<close> (lines 238--299)\<close>

text \<open>
  \<^verbatim>\<open>await asyncio.wait([project.setup() for project in projects])\<close>: \<^verbatim>\<open>asyncio.wait\<close> refuses an
  empty list with \<^verbatim>\<open>ValueError\<close> and does not raise the exception of a task; a set-up
  that fails leaves the state as it was.
\<close>

definition wait_setup :: "'w env \<Rightarrow> Project list \<Rightarrow> 'w \<Rightarrow> 'w outcome" where
  "wait_setup E projects w =
     (if projects = [] then ([], Inl (ValueError ''Set of Tasks/Futures is empty.''))
      else ([Gather (map Project_setup projects)],
            Inr (foldl (\<lambda>w' p. case x_project_setup E p w' of Inl e \<Rightarrow> w' | Inr w'' \<Rightarrow> w'')
                   w projects)))"

definition run_wrapper ::
  "'w env \<Rightarrow> string \<Rightarrow> 'w \<Rightarrow> Project \<Rightarrow> (string \<times> MypyResult) outcome" where
  "run_wrapper E mypy_exe w project =
     and_then (run_mypy E mypy_exe w project) (\<lambda>r. ([], Inr (name project, r)))"

text \<open>
  Lines 239--270: everything before the assertion of line 282. The value is what the rest
  of the function reads: the checker, the projects, \<^verbatim>\<open>old_results\<close> and the state of the
  outside. The branches under \<^verbatim>\<open>ARGS.debug\<close> only print and are left out.
\<close>

definition bisect_init ::
  "'w env \<Rightarrow> Args \<Rightarrow> 'w
    \<Rightarrow> (string \<times> Project list \<times> (string \<rightharpoonup> MypyResult) \<times> 'w) outcome" where
  "bisect_init E ARGS w =
     and_then (py_assert (\<not> truthy_str (new_typeshed ARGS))) (\<lambda>_.
     and_then (py_assert (\<not> truthy_str (old_typeshed ARGS))) (\<lambda>_.
     and_then (setup_mypy E ''bisect_mypy'' w) (\<lambda>(mypy_exe, w1).
     and_then (py_assert (x_is_dir E w1)) (\<lambda>_.
     and_then (select_projects_of E ARGS) (\<lambda>projects.
     and_then (wait_setup E projects w1) (\<lambda>w2.
     and_then (gather (run_wrapper E mypy_exe w2) projects) (\<lambda>results_fut.
     and_then (run E [''git'', ''bisect'', ''start''] w2) (\<lambda>(_, w3).
     and_then (run E [''git'', ''bisect'', ''good''] w3) (\<lambda>(_, w4).
     and_then (let r = (if truthy_str (new_mypy ARGS) then the (new_mypy ARGS)
                        else ''origin/HEAD'')
               in ([Get_revision r], x_get_revision E r w4)) (\<lambda>new_revision.
     and_then (run E [''git'', ''bisect'', ''bad'', new_revision] w4) (\<lambda>(_, w5).
     ([], Inr (mypy_exe, projects, dict results_fut, w5)))))))))))))"

text \<open>
  One pass through the body of \<^verbatim>\<open>while True\<close> (lines 285--299): \<open>Some stdout\<close> when the
  pass prints the report and returns, \<open>None\<close> when the loop goes on.
\<close>

definition bisect_step ::
  "'w env \<Rightarrow> Args \<Rightarrow> string \<Rightarrow> Project list \<Rightarrow> (string \<rightharpoonup> MypyResult) \<Rightarrow> 'w
    \<Rightarrow> (string option \<times> 'w) outcome" where
  "bisect_step E ARGS mypy_exe projects old_results w =
     and_then (run E [''git'', ''submodule'', ''update'', ''--init''] w) (\<lambda>(_, w1).
     and_then (gather (run_wrapper E mypy_exe w1) projects) (\<lambda>results_fut.
     and_then ([], are_results_good (x_re_search E) (x_strip_colour_code E) ARGS projects
                     old_results (dict results_fut)) (\<lambda>is_good.
     and_then (run E [''git'', ''bisect'', if is_good then ''good'' else ''bad''] w1)
       (\<lambda>(stdout, w2).
     if sublist ''first bad commit'' stdout then ([Print stdout], Inr (Some stdout, w2))
     else ([], Inr (None, w2))))))"

text \<open>
  The loop has no bound of its own, so it is a partial function: \<open>None\<close> is a loop that
  never returns. \<open>tr\<close> is the trace of the run so far.
\<close>

partial_function (option) bisect_loop ::
  "'w env \<Rightarrow> Args \<Rightarrow> string \<Rightarrow> Project list \<Rightarrow> (string \<rightharpoonup> MypyResult) \<Rightarrow> 'w
    \<Rightarrow> event list \<Rightarrow> (unit outcome) option" where
  "bisect_loop E ARGS mypy_exe projects old_results w tr =
     (case bisect_step E ARGS mypy_exe projects old_results w of
        (evs, Inl e) \<Rightarrow> Some (tr @ evs, Inl e)
      | (evs, Inr (Some stdout, w')) \<Rightarrow> Some (tr @ evs, Inr ())
      | (evs, Inr (None, w')) \<Rightarrow>
          bisect_loop E ARGS mypy_exe projects old_results w' (tr @ evs))"

definition bisect :: "'w env \<Rightarrow> Args \<Rightarrow> 'w \<Rightarrow> (unit outcome) option" where
  "bisect E ARGS w =
     (case bisect_init E ARGS w of
        (tr, Inl e) \<Rightarrow> Some (tr, Inl e)
      | (tr, Inr (mypy_exe, projects, old_results, w1)) \<Rightarrow>
          (case are_results_good (x_re_search E) (x_strip_colour_code E) ARGS projects
                  old_results old_results of
             Inl e \<Rightarrow> Some (tr, Inl e)
           | Inr is_good \<Rightarrow>
               if is_good then bisect_loop E ARGS mypy_exe projects old_results w1 tr
               else Some (tr, Inl AssertionError)))"

subsection \<open>\<^verbatim>\<open>primer\<close> (lines 328--367)\<close>

text \<open>What the body of the loop prints for one result (lines 354--364).\<close>

definition report :: "Args \<Rightarrow> PrimerResult \<Rightarrow> event list" where
  "report ARGS result =
     (if opt_output ARGS = ''full'' then [Print (format_full result)]
      else if opt_output ARGS = ''diff'' then [Print (format_diff_only result)]
      else if opt_output ARGS = ''concise'' then
        (if format_concise result \<noteq> [] then [Print (format_concise result), Print []] else [])
      else [])"

text \<open>
  Lines 349--367 over the outcomes of the futures in the order of their completion;
  awaiting a future that failed raises its exception.
\<close>

fun primer_loop :: "Args \<Rightarrow> int \<Rightarrow> (error + PrimerResult) list \<Rightarrow> int outcome" where
  "primer_loop ARGS retcode [] = ([], Inr retcode)"
| "primer_loop ARGS retcode (result_fut # rest) =
     (case result_fut of
        Inl e \<Rightarrow> ([], Inl e)
      | Inr result \<Rightarrow>
          if old_success ARGS \<and> \<not> success (old_result result)
          then primer_loop ARGS retcode rest
          else and_then (report ARGS result, Inr ()) (\<lambda>_.
                 primer_loop ARGS (if retcode = 0 \<and> diff result \<noteq> [] then 1 else retcode)
                   rest))"

definition primer :: "'w env \<Rightarrow> Args \<Rightarrow> 'w \<Rightarrow> int outcome" where
  "primer E ARGS w =
     and_then (select_projects_of E ARGS) (\<lambda>projects.
     and_then ([Setup_new_and_old_mypy], x_setup_new_and_old_mypy E w) (\<lambda>w1.
     and_then ([Setup_new_and_old_typeshed], x_setup_new_and_old_typeshed E w1) (\<lambda>w2.
     and_then ([Gather (map Primer_result projects)], Inr ()) (\<lambda>_.
     primer_loop ARGS 0 (x_primer_results E projects w2)))))"

subsection \<open>\<^verbatim>\<open>validate_expected_success\<close> (lines 175--211)\<close>

definition RECENT_MYPYS :: "string list" where
  "RECENT_MYPYS = [''0.991'', ''0.982'', ''0.971'', ''0.961'']"

fun setup_all :: "'w env \<Rightarrow> string list \<Rightarrow> 'w \<Rightarrow> (string list \<times> 'w) outcome" where
  "setup_all E [] w = ([], Inr ([], w))"
| "setup_all E (d # ds) w =
     and_then (setup_mypy E d w) (\<lambda>(exe, w1).
     and_then (setup_all E ds w1) (\<lambda>(exes, w2). ([], Inr (exe # exes, w2))))"

text \<open>The \<^verbatim>\<open>for\<close> loop of \<^verbatim>\<open>inner\<close>: the first checker that succeeds, or \<^verbatim>\<open>None\<close>.\<close>

fun first_success :: "'w env \<Rightarrow> 'w \<Rightarrow> Project \<Rightarrow> string list \<Rightarrow> (string option) outcome" where
  "first_success E w project [] = ([], Inr None)"
| "first_success E w project (mypy_exe # rest) =
     and_then (run_mypy E mypy_exe w project) (\<lambda>mypy_result.
       if success mypy_result then ([], Inr (Some mypy_exe))
       else first_success E w project rest)"

definition validate_inner ::
  "'w env \<Rightarrow> string list \<Rightarrow> 'w \<Rightarrow> Project \<Rightarrow> (string option) outcome" where
  "validate_inner E recent_mypy_exes w project =
     and_then ([Project_setup project], x_project_setup E project w) (\<lambda>w1.
     and_then (first_success E w1 project recent_mypy_exes) (\<lambda>success.
     ([], Inr
       (if success \<noteq> None \<and> \<not> expected_success project
        then Some (''Project '' @ location project @ '' succeeded with '' @ the success
                   @ '', but is not marked as expecting success'')
        else if success = None \<and> expected_success project
        then Some (''Project '' @ location project
                   @ '' did not succeed, but is marked as expecting success'')
        else None))))"

definition validate_expected_success :: "'w env \<Rightarrow> Args \<Rightarrow> 'w \<Rightarrow> unit outcome" where
  "validate_expected_success E ARGS w =
     and_then (concurrently (setup_all E (map (\<lambda>v. ''mypy_'' @ v) RECENT_MYPYS) w))
       (\<lambda>(recent_mypy_exes, w1).
     and_then (select_projects_of E ARGS) (\<lambda>projects.
     and_then (gather (validate_inner E recent_mypy_exes w1) projects) (\<lambda>results.
     (map Print (concat (map (\<lambda>r. case r of None \<Rightarrow> [] | Some m \<Rightarrow> if m = [] then [] else [m])
                           results)),
      Inr ()))))"

subsection \<open>\<^verbatim>\<open>main\<close> (lines 404--409)\<close>

text \<open>
  \<open>inner\<close> is the outcome of the call \<^verbatim>\<open>inner()\<close>: the value of the coroutine that was
  run, or an exception. The second component is the status given to \<^verbatim>\<open>sys.exit\<close>, which
  is 0 for \<^verbatim>\<open>None\<close>.
\<close>

definition main :: "(int option) outcome \<Rightarrow> event list \<times> int" where
  "main inner =
     (case inner of
        (tr, Inl e) \<Rightarrow> (tr @ [Print_traceback e], 70)
      | (tr, Inr retcode) \<Rightarrow> (tr, case retcode of None \<Rightarrow> 0 | Some n \<Rightarrow> n))"

text \<open>\<^verbatim>\<open>inner\<close> when the coroutine is \<^verbatim>\<open>primer()\<close> and the directories are in place.\<close>

definition inner_primer :: "'w env \<Rightarrow> Args \<Rightarrow> 'w \<Rightarrow> (int option) outcome" where
  "inner_primer E ARGS w = and_then (primer E ARGS w) (\<lambda>retcode. ([], Inr (Some retcode)))"


subsection \<open>\<^verbatim>\<open>utils.strip_colour_code\<close>\<close>

text \<open>
  Modelled from the spec: \<^verbatim>\<open>strip_colour_code\<close> is defined in \<^verbatim>\<open>mypy_primer/utils.py\<close>,
  of which \<^verbatim>\<open>main.py\<close> has the import only. The specification says that it strips ANSI
  styling from an output. A styling sequence is the escape character, an opening bracket,
  parameters (digits and semicolons) and the letter m; the function removes every such
  sequence and keeps all other text.
\<close>

definition is_sgr_param :: "char \<Rightarrow> bool" where
  "is_sgr_param c = (c \<in> set ''0123456789;'')"

definition sgr_rest :: "string \<Rightarrow> string option" where
  "sgr_rest cs =
     (case cs of
        [] \<Rightarrow> None
      | c # rest \<Rightarrow>
          if c = CHR ''['' then
            (case dropWhile is_sgr_param rest of
               [] \<Rightarrow> None
             | d # rest' \<Rightarrow> if d = CHR ''m'' then Some rest' else None)
          else None)"

lemma sgr_rest_shorter: "sgr_rest cs = Some rest \<Longrightarrow> length rest < Suc (length cs)"
proof -
  assume a: "sgr_rest cs = Some rest"
  then obtain c cs' where cs: "cs = c # cs'"
    by (cases cs) (simp_all add: sgr_rest_def)
  with a obtain d where d: "dropWhile is_sgr_param cs' = d # rest"
    by (auto simp: sgr_rest_def split: if_splits list.splits)
  have "length (dropWhile is_sgr_param cs') \<le> length cs'"
    by (rule length_dropWhile_le)
  with d cs show ?thesis by simp
qed

function strip_colour_code :: "string \<Rightarrow> string" where
  "strip_colour_code [] = []"
| "strip_colour_code (c # cs) =
     (if c = CHR 0x1B then
        (case sgr_rest cs of
           Some rest \<Rightarrow> strip_colour_code rest
         | None \<Rightarrow> c # strip_colour_code cs)
      else c # strip_colour_code cs)"
  by pat_completeness auto
termination
  by (relation "measure length") (auto dest: sgr_rest_shorter)

subsection \<open>The bisection primitive\<close>

text \<open>
  Modelled from the spec: the bisection itself is done by \<^verbatim>\<open>git bisect\<close>, which \<^verbatim>\<open>bisect\<close>
  calls through \<^verbatim>\<open>utils.run\<close>; \<^verbatim>\<open>main.py\<close> holds no interval. The specification describes
  the state of the search as a known-good boundary, a known-bad boundary and the candidate
  under test over an ordered history of revisions, a step as a test of the midpoint that
  advances one boundary, and the end as the interval collapsed to one revision, reported
  with the words ``first bad commit''. Revisions are numbered along the history; the
  candidates are the revisions after \<open>known_good\<close> up to \<open>known_bad\<close>.
\<close>

record bisection =
  known_good :: nat
  known_bad :: nat

definition interval_size :: "bisection \<Rightarrow> nat" where
  "interval_size s = known_bad s - known_good s"

definition candidate :: "bisection \<Rightarrow> nat" where
  "candidate s = known_good s + interval_size s div 2"

definition record_verdict :: "string \<Rightarrow> bisection \<Rightarrow> bisection" where
  "record_verdict state s =
     (if state = ''good'' then s\<lparr>known_good := candidate s\<rparr>
      else s\<lparr>known_bad := candidate s\<rparr>)"

definition step_report :: "(nat \<Rightarrow> string) \<Rightarrow> bisection \<Rightarrow> string" where
  "step_report rev_id s =
     (if interval_size s \<le> 1 then rev_id (known_bad s) @ '' is the first bad commit''
      else ''Bisecting'')"

definition git_bisect :: "(nat \<Rightarrow> string) \<Rightarrow> string list \<Rightarrow> bisection
    \<Rightarrow> error + string \<times> bisection" where
  "git_bisect rev_id argv s =
     (if argv = [''git'', ''bisect'', ''good''] \<or> argv = [''git'', ''bisect'', ''bad'']
      then (let s' = record_verdict (argv ! 2) s in Inr (step_report rev_id s', s'))
      else Inr ([], s))"

text \<open>
  The collaborators of a bisection over such a history: the commands go to the primitive,
  and the checker that runs is the one of the candidate, \<open>checker r p\<close> being the result
  of revision \<open>r\<close> on project \<open>p\<close>.
\<close>

definition bisection_env ::
  "(nat \<Rightarrow> Project \<Rightarrow> MypyResult) \<Rightarrow> (nat \<Rightarrow> string) \<Rightarrow> bisection env \<Rightarrow> bisection env" where
  "bisection_env checker rev_id E =
     E\<lparr>x_run := git_bisect rev_id,
       x_run_mypy := (\<lambda>exe p s. Inr (checker (candidate s) p))\<rparr>"

text \<open>The passes of the loop in a trace: the verdicts reported to the primitive.\<close>

definition is_verdict :: "event \<Rightarrow> bool" where
  "is_verdict ev =
     (ev = Run [''git'', ''bisect'', ''good''] \<or> ev = Run [''git'', ''bisect'', ''bad''])"

definition steps :: "event list \<Rightarrow> nat" where
  "steps tr = length (filter is_verdict tr)"

subsection \<open>The invariant of the sharding loop\<close>

definition totals :: "Project list list \<Rightarrow> int list" where
  "totals shard_projects = map (\<lambda>s. sum_list (map cost s)) shard_projects"

definition shard_inv :: "nat \<Rightarrow> int list \<times> Project list list \<Rightarrow> bool" where
  "shard_inv n st = (length (snd st) = n \<and> fst st = totals (snd st))"

subsection \<open>Longest processing time first, in the words of the specification\<close>

text \<open>
  The specification describes the partitioner as: the projects sorted by cost downwards,
  ties broken by location, are assigned one after the other, each to the shard with the
  currently lowest accumulated cost. \<open>lpt_assigned n order shards\<close> says that \<open>shards\<close>
  are \<open>n\<close> shards obtained by assigning the projects of \<open>order\<close> in this way, from
  empty shards; the accumulated cost of a shard is the sum of the costs of its projects.
  It is compared below with what the loop of lines 161--166 computes.
\<close>

inductive lpt_assigned :: "nat \<Rightarrow> Project list \<Rightarrow> Project list list \<Rightarrow> bool" where
  lpt_start: "lpt_assigned n [] (replicate n [])"
| lpt_next:
    "lpt_assigned n order shards \<Longrightarrow> m < n \<Longrightarrow>
     (\<forall>j<n. sum_list (map cost (shards ! m)) \<le> sum_list (map cost (shards ! j))) \<Longrightarrow>
     lpt_assigned n (order @ [p]) (shards[m := shards ! m @ [p]])"

subsection \<open>Auxiliary notions of the statements\<close>

text \<open>
  A result that the loop of \<^verbatim>\<open>primer\<close> does not skip at line 352, and the command that opens
  every pass of the loop of \<^verbatim>\<open>bisect\<close> (line 285).
\<close>

definition counted :: "Args \<Rightarrow> PrimerResult \<Rightarrow> bool" where
  "counted ARGS result = (\<not> (old_success ARGS \<and> \<not> success (old_result result)))"

definition submodule_update :: event where
  "submodule_update = Run [''git'', ''submodule'', ''update'', ''--init'']"

subsection \<open>Sample data\<close>

text \<open>Three projects of costs 5, 3 and 2, on which the theorems are instantiated.\<close>

definition P5 :: Project where
  "P5 = \<lparr>location = ''https://github.com/a/five'', name = ''five'', revision = None,
          expected_success = True, cost = 5\<rparr>"

definition P3 :: Project where
  "P3 = \<lparr>location = ''https://github.com/a/three'', name = ''three'', revision = None,
          expected_success = False, cost = 3\<rparr>"

definition P2 :: Project where
  "P2 = \<lparr>location = ''https://github.com/a/two'', name = ''two'', revision = None,
          expected_success = False, cost = 2\<rparr>"

text \<open>A result with a diff whose old run failed.\<close>

definition R_skipped :: PrimerResult where
  "R_skipped = \<lparr>old_result = \<lparr>output_text = ''a.py:1: error: x'', success = False\<rparr>,
      diff = ''+ a.py:2: error: y'', format_full = ''full'', format_diff_only = ''diff'',
      format_concise = ''concise''\<rparr>"

text \<open>Options with nothing set, and collaborators that always succeed and change nothing.\<close>

definition ARGS0 :: Args where
  "ARGS0 = \<lparr>local_project = None, project_selector = None, opt_expected_success = False,
            project_date = None, num_shards = None, shard_index = None,
            bisect_output = None, old_success = False, opt_output = ''concise'',
            new_mypy = None, new_typeshed = None, old_typeshed = None\<rparr>"

definition E0 :: "unit env" where
  "E0 = \<lparr>x_from_location =
            (\<lambda>l. \<lparr>location = l, name = l, revision = None, expected_success = False,
                   cost = 1\<rparr>),
          x_get_projects = [P5, P3, P2],
          x_re_search = sublist,
          x_re_search_I = sublist,
          x_strip_colour_code = strip_colour_code,
          x_setup_mypy = (\<lambda>d w. Inr (d, w)),
          x_setup_new_and_old_mypy = Inr,
          x_setup_new_and_old_typeshed = Inr,
          x_is_dir = (\<lambda>w. True),
          x_project_setup = (\<lambda>p w. Inr w),
          x_run_mypy =
            (\<lambda>exe p w. Inr \<lparr>output_text = ''Success: no issues found'', success = True\<rparr>),
          x_run = (\<lambda>argv w. Inr ([], w)),
          x_get_revision = (\<lambda>r w. Inr r),
          x_primer_results = (\<lambda>ps w. [])\<rparr>"

text \<open>
  A history in which revision 3 is the first with an error, its bisection primitive, and
  the baseline of project \<open>P5\<close>.
\<close>

definition CK :: "nat \<Rightarrow> Project \<Rightarrow> MypyResult" where
  "CK r p = \<lparr>output_text = (if r < 3 then ''Success'' else ''error: x''), success = (r < 3)\<rparr>"

definition EB0 :: "bisection env" where
  "EB0 = \<lparr>x_from_location =
            (\<lambda>l. \<lparr>location = l, name = l, revision = None, expected_success = False,
                   cost = 1\<rparr>),
          x_get_projects = [P5, P3, P2],
          x_re_search = sublist,
          x_re_search_I = sublist,
          x_strip_colour_code = strip_colour_code,
          x_setup_mypy = (\<lambda>d w. Inr (d, w)),
          x_setup_new_and_old_mypy = Inr,
          x_setup_new_and_old_typeshed = Inr,
          x_is_dir = (\<lambda>w. True),
          x_project_setup = (\<lambda>p w. Inr w),
          x_run_mypy = (\<lambda>exe p w. Inl (OtherException ''unused'')),
          x_run = (\<lambda>argv w. Inl (OtherException ''unused'')),
          x_get_revision = (\<lambda>r w. Inr r),
          x_primer_results = (\<lambda>ps w. [])\<rparr>"

definition EB :: "bisection env" where
  "EB = bisection_env CK (\<lambda>n. ''rev'') EB0"

definition OLD5 :: "string \<rightharpoonup> MypyResult" where
  "OLD5 = [''five'' \<mapsto> \<lparr>output_text = ''Success'', success = True\<rparr>]"

section \<open>Properties\<close>

subsection \<open>Sequencing\<close>

lemma and_then_Inl [simp]: "and_then (tr, Inl e) f = (tr, Inl e)"
  by (simp add: and_then_def)

lemma and_then_Inr [simp]: "and_then (tr, Inr a) f = (tr @ fst (f a), snd (f a))"
  by (simp add: and_then_def split: prod.splits)

subsection \<open>The shard of least cost\<close>

lemma min_shard_Suc:
  "min_shard (Suc (Suc n)) cs = min_step cs (min_shard (Suc n) cs) (Suc n)"
  by (simp add: min_shard_def)

lemma min_shard_1: "min_shard (Suc 0) cs = 0"
  by (simp add: min_shard_def)

lemma min_shard_props:
  "min_shard (Suc n) cs < Suc n \<and>
   (\<forall>j<Suc n. cs ! min_shard (Suc n) cs \<le> cs ! j) \<and>
   (\<forall>j<min_shard (Suc n) cs. cs ! min_shard (Suc n) cs < cs ! j)"
proof (induction n)
  case 0
  show ?case by (simp add: min_shard_1)
next
  case (Suc n)
  show ?case
  proof (cases "cs ! Suc n < cs ! min_shard (Suc n) cs")
    case True
    then have m: "min_shard (Suc (Suc n)) cs = Suc n"
      by (simp add: min_shard_Suc min_step_def)
    have "\<forall>j<Suc (Suc n). cs ! Suc n \<le> cs ! j"
    proof (intro allI impI)
      fix j assume "j < Suc (Suc n)"
      then consider "j = Suc n" | "j < Suc n" by linarith
      then show "cs ! Suc n \<le> cs ! j"
      proof cases
        case 1 then show ?thesis by simp
      next
        case 2
        with Suc.IH have "cs ! min_shard (Suc n) cs \<le> cs ! j" by blast
        with True show ?thesis by linarith
      qed
    qed
    moreover have "\<forall>j<Suc n. cs ! Suc n < cs ! j"
    proof (intro allI impI)
      fix j assume "j < Suc n"
      with Suc.IH have "cs ! min_shard (Suc n) cs \<le> cs ! j" by blast
      with True show "cs ! Suc n < cs ! j" by linarith
    qed
    ultimately show ?thesis using m by simp
  next
    case False
    then have m: "min_shard (Suc (Suc n)) cs = min_shard (Suc n) cs"
      by (simp add: min_shard_Suc min_step_def)
    have "\<forall>j<Suc (Suc n). cs ! min_shard (Suc n) cs \<le> cs ! j"
    proof (intro allI impI)
      fix j assume "j < Suc (Suc n)"
      then consider "j = Suc n" | "j < Suc n" by linarith
      then show "cs ! min_shard (Suc n) cs \<le> cs ! j"
      proof cases
        case 1 with False show ?thesis by simp
      next
        case 2
        with Suc.IH show ?thesis by blast
      qed
    qed
    then show ?thesis using m Suc.IH by (simp add: less_Suc_eq)
  qed
qed

lemma min_shard_less: "0 < n \<Longrightarrow> min_shard n cs < n"
  using min_shard_props [of "n - 1" cs] by simp

lemma min_shard_least: "j < n \<Longrightarrow> cs ! min_shard n cs \<le> cs ! j"
  using min_shard_props [of "n - 1" cs] by (cases n) simp_all

lemma min_shard_first: "0 < n \<Longrightarrow> j < min_shard n cs \<Longrightarrow> cs ! min_shard n cs < cs ! j"
  using min_shard_props [of "n - 1" cs] by simp

subsection \<open>The sharding loop\<close>

lemma mset_concat_update:
  "m < length xss \<Longrightarrow> mset (concat (xss[m := xss ! m @ [p]])) = mset (concat xss) + {#p#}"
proof (induction xss arbitrary: m)
  case Nil
  then show ?case by simp
next
  case (Cons xs xss)
  then show ?case by (cases m) simp_all
qed

lemma shard_inv_init: "shard_inv n (replicate n 0, replicate n [])"
  by (simp add: shard_inv_def totals_def)

lemma assign_inv:
  assumes "0 < n" and "shard_inv n st"
  shows "shard_inv n (assign n st p)"
    and "mset (concat (snd (assign n st p))) = mset (concat (snd st)) + {#p#}"
proof -
  let ?m = "min_shard n (fst st)"
  from assms have len: "length (snd st) = n" and tot: "fst st = totals (snd st)"
    by (simp_all add: shard_inv_def)
  from assms(1) have m: "?m < n" by (rule min_shard_less)
  have "(totals (snd st))[?m := totals (snd st) ! ?m + cost p]
        = totals ((snd st)[?m := snd st ! ?m @ [p]])"
    using m len by (simp add: totals_def map_update)
  then show "shard_inv n (assign n st p)"
    using len tot by (simp add: shard_inv_def assign_def Let_def)
  show "mset (concat (snd (assign n st p))) = mset (concat (snd st)) + {#p#}"
    using m len by (simp add: assign_def Let_def mset_concat_update)
qed

lemma foldl_assign_inv:
  assumes "0 < n" and "shard_inv n st"
  shows "shard_inv n (foldl (assign n) st xs) \<and>
         mset (concat (snd (foldl (assign n) st xs))) = mset (concat (snd st)) + mset xs"
  using assms(2)
proof (induction xs arbitrary: st)
  case Nil
  then show ?case by simp
next
  case (Cons x xs)
  from assign_inv [OF assms(1) Cons.prems, of x]
  have a: "shard_inv n (assign n st x)"
    and b: "mset (concat (snd (assign n st x))) = mset (concat (snd st)) + {#x#}"
    by simp_all
  from Cons.IH [OF a] b show ?case by simp
qed

lemma concat_replicate_Nil: "concat (replicate n []) = []"
  by (induction n) simp_all

lemma mset_sorted_reverse: "mset (sorted_reverse projects) = mset projects"
  by (simp add: sorted_reverse_def)

lemma sorted_wrt_sorted_reverse:
  "sorted_wrt (\<lambda>p q. sort_key_of q \<le> sort_key_of p) (sorted_reverse projects)"
proof -
  have "sorted (map sort_key_of (sort_key sort_key_of (rev projects)))" by simp
  then have "sorted_wrt (\<lambda>p q. sort_key_of p \<le> sort_key_of q)
               (sort_key sort_key_of (rev projects))"
    by (simp add: sorted_wrt_map)
  then show ?thesis
    by (simp add: sorted_reverse_def sorted_wrt_rev)
qed

lemma sort_key_of_le_iff:
  "sort_key_of q \<le> sort_key_of p \<longleftrightarrow>
     cost q < cost p \<or> (cost q = cost p \<and> location q \<le> location p)"
  by (auto simp: sort_key_of_def less_eq_prod_def)


lemma shard_loop_inv:
  assumes "0 < n"
  shows "shard_inv n (foldl (assign n) (replicate n 0, replicate n []) xs)"
    and "mset (concat (snd (foldl (assign n) (replicate n 0, replicate n []) xs))) = mset xs"
  using foldl_assign_inv [OF assms shard_inv_init, of xs]
  by (simp_all add: concat_replicate_Nil)

lemma shard_loop_1:
  "shard_loop (Suc 0) projects = ([sum_list (map cost projects)], [sorted_reverse projects])"
proof -
  have step: "\<And>c s p. assign (Suc 0) ([c], [s]) p = ([c + cost p], [s @ [p]])"
    by (simp add: assign_def min_shard_1)
  have "\<And>c s. foldl (assign (Suc 0)) ([c], [s]) xs = ([c + sum_list (map cost xs)], [s @ xs])"
    for xs
  proof (induction xs)
    case Nil
    show ?case by simp
  next
    case (Cons x xs)
    show ?case by (simp add: step Cons.IH add.assoc)
  qed
  then have "shard_loop (Suc 0) projects =
      ([sum_list (map cost (sorted_reverse projects))], [sorted_reverse projects])"
    by (simp add: shard_loop_def)
  moreover have "sum_list (map cost (sorted_reverse projects)) = sum_list (map cost projects)"
    using mset_sorted_reverse [of projects] by (metis mset_map sum_mset_sum_list)
  ultimately show ?thesis by simp
qed

lemma shard_loop_5_3_2:
  assumes "cost a = 5" and "cost b = 3" and "cost c = 2"
  shows "shard_loop 2 [a, b, c] = ([5, 5], [[a], [b, c]])"
  using assms
  by (simp add: shard_loop_def sorted_reverse_def sort_key_of_def assign_def min_shard_def
      min_step_def less_eq_prod_def numeral_2_eq_2)

lemma totals_nth:
  "j < length shards \<Longrightarrow> totals shards ! j = sum_list (map cost (shards ! j))"
  by (simp add: totals_def)

lemma snd_assign:
  "snd (assign n st p) = (snd st)[min_shard n (fst st) := snd st ! min_shard n (fst st) @ [p]]"
  by (simp add: assign_def Let_def)

lemma lpt_assigned_foldl:
  assumes "0 < n"
  shows "lpt_assigned n xs (snd (foldl (assign n) (replicate n 0, replicate n []) xs))"
proof (induction xs rule: rev_induct)
  case Nil
  show ?case by (simp add: lpt_start)
next
  case (snoc p xs)
  let ?st = "foldl (assign n) (replicate n 0, replicate n []) xs"
  let ?m = "min_shard n (fst ?st)"
  from shard_loop_inv(1) [OF assms, of xs]
  have len: "length (snd ?st) = n" and tot: "fst ?st = totals (snd ?st)"
    by (simp_all add: shard_inv_def)
  have m: "?m < n" by (rule min_shard_less [OF assms])
  have least: "\<forall>j<n. sum_list (map cost (snd ?st ! ?m)) \<le> sum_list (map cost (snd ?st ! j))"
  proof (intro allI impI)
    fix j assume j: "j < n"
    from min_shard_least [OF j, of "fst ?st"]
    have "totals (snd ?st) ! ?m \<le> totals (snd ?st) ! j" by (simp add: tot [symmetric])
    then show "sum_list (map cost (snd ?st ! ?m)) \<le> sum_list (map cost (snd ?st ! j))"
      using j m len by (simp add: totals_nth)
  qed
  from lpt_next [OF snoc.IH m least, of p]
  show ?case by (simp add: snd_assign)
qed

lemma lpt_assigned_subseq:
  assumes "lpt_assigned n order shards"
  shows "length shards = n \<and> (\<forall>i<n. subseq (shards ! i) order)"
  using assms
proof (induction rule: lpt_assigned.induct)
  case (lpt_start n)
  show ?case by simp
next
  case (lpt_next n order shards m p)
  then have len: "length shards = n" and sub: "\<forall>i<n. subseq (shards ! i) order"
    by simp_all
  have "\<forall>i<n. subseq (shards[m := shards ! m @ [p]] ! i) (order @ [p])"
  proof (intro allI impI)
    fix i assume i: "i < n"
    show "subseq (shards[m := shards ! m @ [p]] ! i) (order @ [p])"
    proof (cases "i = m")
      case True
      from sub i True have "subseq (shards ! m) order" by simp
      then have "subseq (shards ! m @ [p]) (order @ [p])" by (simp add: subseq_append)
      with True i len show ?thesis by simp
    next
      case False
      from sub i have "subseq (shards ! i) order" by simp
      then have "subseq (shards ! i) (order @ [p])" by (rule subseq_rev_drop_many)
      with False show ?thesis by simp
    qed
  qed
  with len show ?case by simp
qed

text \<open>
  Claim C2. For every list of projects and every number of shards \<open>n \<ge> 1\<close>, the lists in
  \<^verbatim>\<open>shard_projects\<close> after the loop are \<open>n\<close> shards that partition the input: together they
  hold every project exactly as often as the input does, so a project of a list without
  repetition is in exactly one shard. The shards are those of the assignment in LPT order:
  they are obtained, in the sense of \<open>lpt_assigned\<close>, from the projects in the order of
  \<^verbatim>\<open>sorted(..., reverse=True)\<close>, which is a rearrangement of the input by cost downwards and,
  at equal cost, by location downwards; so every shard lists its projects in that order.
  Step by step: wherever the sorted list is cut before a project \<open>p\<close>, \<^verbatim>\<open>shard_costs\<close> holds
  the total cost of each shard at that moment, \<open>p\<close> goes to the first shard \<open>m\<close> whose
  accumulated cost is the lowest, only that shard and its cost change, and the shards
  returned are what the rest of the sorted list makes of that state.
\<close>

theorem partition_law:
  assumes "1 \<le> n"
  shows "length (snd (shard_loop n projects)) = n \<and>
    mset (concat (snd (shard_loop n projects))) = mset projects \<and>
    (distinct projects \<longrightarrow> distinct (concat (snd (shard_loop n projects)))) \<and>
    fst (shard_loop n projects) = totals (snd (shard_loop n projects)) \<and>
    mset (sorted_reverse projects) = mset projects \<and>
    sorted_wrt (\<lambda>p q. cost q < cost p \<or> (cost q = cost p \<and> location q \<le> location p))
      (sorted_reverse projects) \<and>
    lpt_assigned n (sorted_reverse projects) (snd (shard_loop n projects)) \<and>
    (\<forall>i<n. subseq (snd (shard_loop n projects) ! i) (sorted_reverse projects)) \<and>
    (\<forall>pre p rest. sorted_reverse projects = pre @ p # rest \<longrightarrow>
       (let st = foldl (assign n) (replicate n 0, replicate n []) pre;
            m = min_shard n (fst st)
        in m < n \<and> fst st = totals (snd st) \<and>
           (\<forall>j<n. fst st ! m \<le> fst st ! j) \<and>
           (\<forall>j<m. fst st ! m < fst st ! j) \<and>
           foldl (assign n) (replicate n 0, replicate n []) (pre @ [p]) =
             ((fst st)[m := fst st ! m + cost p], (snd st)[m := snd st ! m @ [p]]) \<and>
           shard_loop n projects =
             foldl (assign n) (foldl (assign n) (replicate n 0, replicate n []) (pre @ [p]))
               rest))"
proof -
  from assms have n: "0 < n" by simp
  let ?init = "(replicate n (0::int), replicate n ([]::Project list))"
  have inv: "shard_inv n (shard_loop n projects)"
    unfolding shard_loop_def by (rule shard_loop_inv(1) [OF n])
  have part: "mset (concat (snd (shard_loop n projects))) = mset projects"
    unfolding shard_loop_def by (simp add: shard_loop_inv(2) [OF n] mset_sorted_reverse)
  have dist: "distinct projects \<longrightarrow> distinct (concat (snd (shard_loop n projects)))"
    using part by (metis mset_eq_imp_distinct_iff)
  have srt: "sorted_wrt
      (\<lambda>p q. cost q < cost p \<or> (cost q = cost p \<and> location q \<le> location p))
      (sorted_reverse projects)"
    using sorted_wrt_sorted_reverse [of projects] by (simp add: sort_key_of_le_iff)
  have lpt: "lpt_assigned n (sorted_reverse projects) (snd (shard_loop n projects))"
    unfolding shard_loop_def by (rule lpt_assigned_foldl [OF n])
  have sub: "\<forall>i<n. subseq (snd (shard_loop n projects) ! i) (sorted_reverse projects)"
    using lpt_assigned_subseq [OF lpt] by simp
  have stp: "\<forall>pre p rest. sorted_reverse projects = pre @ p # rest \<longrightarrow>
       (let st = foldl (assign n) ?init pre; m = min_shard n (fst st)
        in m < n \<and> fst st = totals (snd st) \<and>
           (\<forall>j<n. fst st ! m \<le> fst st ! j) \<and>
           (\<forall>j<m. fst st ! m < fst st ! j) \<and>
           foldl (assign n) ?init (pre @ [p]) =
             ((fst st)[m := fst st ! m + cost p], (snd st)[m := snd st ! m @ [p]]) \<and>
           shard_loop n projects = foldl (assign n) (foldl (assign n) ?init (pre @ [p])) rest)"
  proof (intro allI impI)
    fix pre p rest
    assume cut: "sorted_reverse projects = pre @ p # rest"
    let ?st = "foldl (assign n) ?init pre"
    let ?m = "min_shard n (fst ?st)"
    have i: "shard_inv n ?st" by (rule shard_loop_inv(1) [OF n])
    have a: "?m < n" by (rule min_shard_less [OF n])
    have b: "fst ?st = totals (snd ?st)" using i by (simp add: shard_inv_def)
    have c: "\<forall>j<n. fst ?st ! ?m \<le> fst ?st ! j" by (simp add: min_shard_least)
    have d: "\<forall>j<?m. fst ?st ! ?m < fst ?st ! j" using n by (simp add: min_shard_first)
    have e: "foldl (assign n) ?init (pre @ [p]) =
        ((fst ?st)[?m := fst ?st ! ?m + cost p], (snd ?st)[?m := snd ?st ! ?m @ [p]])"
      by (simp add: assign_def Let_def)
    have f: "shard_loop n projects = foldl (assign n) (foldl (assign n) ?init (pre @ [p])) rest"
      by (simp add: shard_loop_def cut)
    show "let st = foldl (assign n) ?init pre; m = min_shard n (fst st)
        in m < n \<and> fst st = totals (snd st) \<and>
           (\<forall>j<n. fst st ! m \<le> fst st ! j) \<and>
           (\<forall>j<m. fst st ! m < fst st ! j) \<and>
           foldl (assign n) ?init (pre @ [p]) =
             ((fst st)[m := fst st ! m + cost p], (snd st)[m := snd st ! m @ [p]]) \<and>
           shard_loop n projects = foldl (assign n) (foldl (assign n) ?init (pre @ [p])) rest"
      unfolding Let_def by (intro conjI a b c d e f)
  qed
  have len: "length (snd (shard_loop n projects)) = n"
    and tot: "fst (shard_loop n projects) = totals (snd (shard_loop n projects))"
    using inv by (simp_all add: shard_inv_def)
  show ?thesis
    by (intro conjI len part dist tot mset_sorted_reverse srt lpt sub stp)
qed


theorem partition_law_witness:
  "(1::nat) \<le> 2 \<and> length (snd (shard_loop 2 [P2, P5, P3])) = 2 \<and>
   mset (concat (snd (shard_loop 2 [P2, P5, P3]))) = mset [P2, P5, P3] \<and>
   snd (shard_loop 2 [P2, P5, P3]) = [[P5], [P3, P2]] \<and>
   sorted_reverse [P2, P5, P3] = [P5, P3, P2] \<and>
   lpt_assigned 2 [P5, P3, P2] [[P5], [P3, P2]]"
proof -
  have h: "(1::nat) \<le> 2" by simp
  have s: "snd (shard_loop 2 [P2, P5, P3]) = [[P5], [P3, P2]]"
    by (simp add: shard_loop_def sorted_reverse_def sort_key_of_def assign_def min_shard_def
      min_step_def less_eq_prod_def numeral_2_eq_2 P5_def P3_def P2_def)
  have o: "sorted_reverse [P2, P5, P3] = [P5, P3, P2]"
    by (simp add: sorted_reverse_def sort_key_of_def less_eq_prod_def P5_def P3_def P2_def)
  from h s o partition_law [OF h, of "[P2, P5, P3]"] show ?thesis by simp
qed

text \<open>
  Claim C9. Three projects of costs 5, 3 and 2 in two shards: the first shard is the
  project of cost 5, the second the projects of costs 3 and 2, and both totals are 5.
  With one shard, for every list of projects, the only shard holds all the projects and
  its total is the sum of all costs.
\<close>

theorem lpt_scenario_and_single_shard:
  "(cost a = 5 \<and> cost b = 3 \<and> cost c = 2 \<longrightarrow>
      shard_loop 2 [a, b, c] = ([5, 5], [[a], [b, c]])) \<and>
   shard_loop 1 projects = ([sum_list (map cost projects)], [sorted_reverse projects]) \<and>
   mset (sorted_reverse projects) = mset projects"
  using shard_loop_5_3_2 [of a b c] shard_loop_1 [of projects] mset_sorted_reverse [of projects]
  by simp

theorem lpt_scenario_witness:
  "cost P5 = 5 \<and> cost P3 = 3 \<and> cost P2 = 2 \<and>
   shard_loop 2 [P5, P3, P2] = ([5, 5], [[P5], [P3, P2]]) \<and>
   shard_loop 1 [P5, P3, P2] = ([10], [[P5, P3, P2]])"
proof -
  have "sorted_reverse [P5, P3, P2] = [P5, P3, P2]"
    by (simp add: sorted_reverse_def sort_key_of_def less_eq_prod_def P5_def P3_def P2_def)
  then show ?thesis
    using lpt_scenario_and_single_shard [of P5 P3 P2 "[P5, P3, P2]"]
    by (simp add: P5_def P3_def P2_def)
qed


subsection \<open>The verdict of a bisection step\<close>

lemma py_any_total:
  assumes "\<forall>x\<in>set xs. \<exists>b. f x = Inr b"
  shows "py_any f xs = Inr (\<exists>x\<in>set xs. f x = Inr True)"
  using assms by (induction xs) auto

lemma py_all_total:
  assumes "\<forall>x\<in>set xs. \<exists>b. f x = Inr b"
  shows "py_all f xs = Inr (\<forall>x\<in>set xs. f x = Inr True)"
  using assms by (induction xs) auto

lemma pattern_found_present:
  assumes "name p \<in> dom results"
  shows "pattern_found re strip pat results p
         = Inr (re pat (strip (output_text (the (results (name p))))))"
  using assms by (auto simp: pattern_found_def getitem_def)

lemma same_output_present:
  assumes "name p \<in> dom results" and "name p \<in> dom old_results"
  shows "same_output old_results results p
         = Inr (output_text (the (results (name p))) = output_text (the (old_results (name p))))"
  using assms by (auto simp: same_output_def getitem_def)

lemma are_results_good_pattern:
  assumes "truthy_str (bisect_output ARGS)"
    and "\<forall>p\<in>set projects. name p \<in> dom results"
  shows "are_results_good re strip ARGS projects old_results results
         = Inr (\<not> (\<exists>p\<in>set projects.
                 re (the (bisect_output ARGS)) (strip (output_text (the (results (name p)))))))"
proof -
  let ?f = "pattern_found re strip (the (bisect_output ARGS)) results"
  have tot: "\<forall>p\<in>set projects. \<exists>b. ?f p = Inr b"
    using assms(2) by (simp add: pattern_found_present)
  have "py_any ?f projects = Inr (\<exists>p\<in>set projects. ?f p = Inr True)"
    by (rule py_any_total [OF tot])
  also have "(\<exists>p\<in>set projects. ?f p = Inr True) \<longleftrightarrow>
     (\<exists>p\<in>set projects. re (the (bisect_output ARGS)) (strip (output_text (the (results (name p))))))"
    using assms(2) by (simp add: pattern_found_present)
  finally show ?thesis using assms(1) by (simp add: are_results_good_def)
qed

lemma are_results_good_equal:
  assumes "\<not> truthy_str (bisect_output ARGS)"
    and "\<forall>p\<in>set projects. name p \<in> dom results \<and> name p \<in> dom old_results"
  shows "are_results_good re strip ARGS projects old_results results
         = Inr (\<forall>p\<in>set projects.
                 output_text (the (results (name p))) = output_text (the (old_results (name p))))"
proof -
  let ?f = "same_output old_results results"
  have tot: "\<forall>p\<in>set projects. \<exists>b. ?f p = Inr b"
    using assms(2) by (simp add: same_output_present)
  have "py_all ?f projects = Inr (\<forall>p\<in>set projects. ?f p = Inr True)"
    by (rule py_all_total [OF tot])
  also have "(\<forall>p\<in>set projects. ?f p = Inr True) \<longleftrightarrow>
     (\<forall>p\<in>set projects.
        output_text (the (results (name p))) = output_text (the (old_results (name p))))"
    using assms(2) by (simp add: same_output_present)
  finally show ?thesis using assms(1) by (simp add: are_results_good_def)
qed

lemma dict_distinct:
  assumes "distinct (map name projects)" and "p \<in> set projects"
  shows "dict (map (\<lambda>p. (name p, r p)) projects) (name p) = Some (r p)"
proof -
  have "distinct (map fst (rev (map (\<lambda>p. (name p, r p)) projects)))"
    using assms(1) by (simp add: rev_map [symmetric] comp_def)
  moreover have "(name p, r p) \<in> set (rev (map (\<lambda>p. (name p, r p)) projects))"
    using assms(2) by auto
  ultimately show ?thesis unfolding dict_def by (rule map_of_is_SomeI)
qed

text \<open>
  Claim C1. A bisection step computes the verdict from the dictionaries that \<^verbatim>\<open>dict\<close> builds
  from the results of the projects, \<open>old p\<close> being the baseline result of project \<open>p\<close> and
  \<open>new p\<close> its result in the step. With the names of the projects distinct (the keys of
  the dictionaries are the names), the verdict is never an exception; under the pattern
  policy (\<^verbatim>\<open>ARGS.bisect_output\<close> set) it is good exactly when no project's stripped output
  contains the pattern, and under the equivalence policy exactly when every project's
  output equals its baseline output. One project that differs or matches makes it bad.
\<close>

theorem aggregate_verdict:
  assumes "distinct (map name projects)"
  shows "are_results_good re_search strip ARGS projects
           (dict (map (\<lambda>p. (name p, old p)) projects))
           (dict (map (\<lambda>p. (name p, new p)) projects))
         = Inr (if truthy_str (bisect_output ARGS)
                then \<not> (\<exists>p\<in>set projects.
                          re_search (the (bisect_output ARGS)) (strip (output_text (new p))))
                else (\<forall>p\<in>set projects. output_text (new p) = output_text (old p)))"
proof -
  let ?old = "dict (map (\<lambda>p. (name p, old p)) projects)"
  let ?new = "dict (map (\<lambda>p. (name p, new p)) projects)"
  have n: "\<forall>p\<in>set projects. ?new (name p) = Some (new p)"
    using assms by (simp add: dict_distinct)
  have o: "\<forall>p\<in>set projects. ?old (name p) = Some (old p)"
    using assms by (simp add: dict_distinct)
  have dom: "\<forall>p\<in>set projects. name p \<in> dom ?new \<and> name p \<in> dom ?old"
    using n o by (simp add: domIff)
  show ?thesis
  proof (cases "truthy_str (bisect_output ARGS)")
    case True
    from are_results_good_pattern [OF True, of projects ?new re_search strip ?old] dom n True
    show ?thesis by simp
  next
    case False
    from are_results_good_equal [OF False, of projects ?new ?old re_search strip] dom n o False
    show ?thesis by simp
  qed
qed

text \<open>
  Claim C7. Under the pattern policy, for every dictionary of results that has a result
  for each project, the verdict is bad (\<open>Inr False\<close>) exactly when the stripped output of at
  least one project contains the pattern, and it is the same for every reordering of the
  list of projects.
\<close>

theorem pattern_verdict_order:
  assumes "truthy_str (bisect_output ARGS)"
    and "\<forall>p\<in>set projects. name p \<in> dom results"
  shows "are_results_good re_search strip ARGS projects old_results results
         = Inr (\<not> (\<exists>p\<in>set projects.
               re_search (the (bisect_output ARGS)) (strip (output_text (the (results (name p))))))) \<and>
    (\<forall>projects'. mset projects' = mset projects \<longrightarrow>
       are_results_good re_search strip ARGS projects' old_results results
       = are_results_good re_search strip ARGS projects old_results results)"
proof (intro conjI allI impI)
  show "are_results_good re_search strip ARGS projects old_results results
         = Inr (\<not> (\<exists>p\<in>set projects.
               re_search (the (bisect_output ARGS)) (strip (output_text (the (results (name p)))))))"
    by (rule are_results_good_pattern [OF assms])
next
  fix projects' :: "Project list"
  assume "mset projects' = mset projects"
  then have s: "set projects' = set projects" by (rule mset_eq_setD)
  with assms(2) have "\<forall>p\<in>set projects'. name p \<in> dom results" by simp
  from are_results_good_pattern [OF assms(1) this] are_results_good_pattern [OF assms] s
  show "are_results_good re_search strip ARGS projects' old_results results
       = are_results_good re_search strip ARGS projects old_results results"
    by simp
qed

text \<open>
  Claim C3, as amended. Under the equivalence policy the new and the old result of a project
  are declared equivalent exactly when their outputs are the same text as they stand:
  line 279 compares \<^verbatim>\<open>output\<close> with \<^verbatim>\<open>output\<close>, and \<^verbatim>\<open>strip_colour_code\<close> is applied under the
  pattern policy only.
\<close>

theorem raw_outputs_compared:
  assumes "\<not> truthy_str (bisect_output ARGS)"
  shows "are_results_good re_search strip ARGS [p] [name p \<mapsto> r_old] [name p \<mapsto> r_new]
         = Inr (output_text r_new = output_text r_old)"
  using assms by (simp add: are_results_good_def same_output_def getitem_def)


text \<open>
  Claim C3 as stated fails: an output with a styling sequence in front and the same output
  without it are identical after stripping, and are not declared equivalent.
\<close>

theorem styled_output_not_equivalent:
  "strip_colour_code (CHR 0x1B # ''[0mSuccess'') = strip_colour_code ''Success'' \<and>
   are_results_good sublist strip_colour_code ARGS0 [P5]
     [name P5 \<mapsto> \<lparr>output_text = ''Success'', success = True\<rparr>]
     [name P5 \<mapsto> \<lparr>output_text = CHR 0x1B # ''[0mSuccess'', success = True\<rparr>]
   = Inr False"
  by (simp add: are_results_good_def same_output_def getitem_def ARGS0_def truthy_str_def
      sgr_rest_def is_sgr_param_def)


theorem aggregate_verdict_witness:
  "distinct (map name [P5, P3]) \<and>
   are_results_good sublist strip_colour_code ARGS0 [P5, P3]
     (dict (map (\<lambda>p. (name p, \<lparr>output_text = ''Success'', success = True\<rparr>)) [P5, P3]))
     (dict (map (\<lambda>p. (name p,
        if name p = ''three'' then \<lparr>output_text = ''error: x'', success = False\<rparr>
        else \<lparr>output_text = ''Success'', success = True\<rparr>)) [P5, P3]))
   = Inr False"
proof -
  have d: "distinct (map name [P5, P3])" by (simp add: P5_def P3_def)
  show ?thesis
    using d aggregate_verdict [OF d, of sublist strip_colour_code ARGS0
        "\<lambda>p. \<lparr>output_text = ''Success'', success = True\<rparr>"
        "\<lambda>p. if name p = ''three'' then \<lparr>output_text = ''error: x'', success = False\<rparr>
             else \<lparr>output_text = ''Success'', success = True\<rparr>"]
    by (simp add: ARGS0_def truthy_str_def P5_def P3_def)
qed

theorem pattern_verdict_order_witness:
  "truthy_str (bisect_output (ARGS0\<lparr>bisect_output := Some ''error''\<rparr>)) \<and>
   are_results_good sublist strip_colour_code (ARGS0\<lparr>bisect_output := Some ''error''\<rparr>)
     [P5, P3] Map.empty
     [''five'' \<mapsto> \<lparr>output_text = ''Success'', success = True\<rparr>,
      ''three'' \<mapsto> \<lparr>output_text = ''x.py:1: error: y'', success = False\<rparr>]
   = Inr False \<and>
   are_results_good sublist strip_colour_code (ARGS0\<lparr>bisect_output := Some ''error''\<rparr>)
     [P3, P5] Map.empty
     [''five'' \<mapsto> \<lparr>output_text = ''Success'', success = True\<rparr>,
      ''three'' \<mapsto> \<lparr>output_text = ''x.py:1: error: y'', success = False\<rparr>]
   = Inr False"
proof -
  let ?A = "ARGS0\<lparr>bisect_output := Some ''error''\<rparr>"
  let ?R = "[''five'' \<mapsto> \<lparr>output_text = ''Success'', success = True\<rparr>,
      ''three'' \<mapsto> \<lparr>output_text = ''x.py:1: error: y'', success = False\<rparr>]"
  have t: "truthy_str (bisect_output ?A)" by (simp add: truthy_str_def)
  have k: "\<forall>p\<in>set [P5, P3]. name p \<in> dom ?R" by (simp add: P5_def P3_def)
  have m: "mset [P3, P5] = mset [P5, P3]" by simp
  have s: "sublist ''error'' ''x.py:1: error: y''" by (simp add: sublist_code prefix_code)
  from pattern_verdict_order [OF t k, of sublist strip_colour_code Map.empty] m s t
  show ?thesis by (auto simp: P5_def P3_def)
qed

theorem raw_outputs_compared_witness:
  "\<not> truthy_str (bisect_output ARGS0) \<and>
   are_results_good sublist strip_colour_code ARGS0 [P5]
     [name P5 \<mapsto> \<lparr>output_text = ''Success'', success = True\<rparr>]
     [name P5 \<mapsto> \<lparr>output_text = ''Success'', success = True\<rparr>]
   = Inr True"
proof -
  have h: "\<not> truthy_str (bisect_output ARGS0)" by (simp add: ARGS0_def truthy_str_def)
  from h raw_outputs_compared [OF h, of sublist strip_colour_code P5
      "\<lparr>output_text = ''Success'', success = True\<rparr>"
      "\<lparr>output_text = ''Success'', success = True\<rparr>"]
  show ?thesis by simp
qed


subsection \<open>Selection\<close>

text \<open>
  Claim C10. When \<^verbatim>\<open>ARGS.local_project\<close> is a location (a string that is not empty),
  \<^verbatim>\<open>select_projects\<close> returns the one project \<^verbatim>\<open>Project.from_location\<close> makes of it, whatever
  the corpus, the project selector, the expected-success filter, the date override and the
  sharding options are; in particular it does not raise.
\<close>

theorem local_project_only:
  assumes "local_project ARGS = Some l" and "l \<noteq> []"
  shows "select_projects from_location get_projects re_search_I ARGS = Inr [from_location l] \<and>
    select_projects from_location get_projects' re_search_I'
      (ARGS\<lparr>project_selector := sel, opt_expected_success := es, project_date := d,
             num_shards := ns, shard_index := si\<rparr>) = Inr [from_location l]"
  using assms by (simp add: select_projects_def truthy_str_def)

theorem local_project_only_witness:
  "select_projects (x_from_location E0) (x_get_projects E0) (x_re_search_I E0)
     (ARGS0\<lparr>local_project := Some ''../here'', project_selector := Some ''nomatch'',
            opt_expected_success := True, project_date := Some ''2020-01-01'',
            num_shards := Some 2, shard_index := Some 7\<rparr>)
   = Inr [\<lparr>location = ''../here'', name = ''../here'', revision = None,
            expected_success = False, cost = 1\<rparr>]"
  using local_project_only [where ARGS = "ARGS0\<lparr>local_project := Some ''../here''\<rparr>"
      and l = "''../here''" and from_location = "x_from_location E0"
      and get_projects = "x_get_projects E0" and re_search_I = "x_re_search_I E0"
      and get_projects' = "x_get_projects E0" and re_search_I' = "x_re_search_I E0"
      and sel = "Some ''nomatch''" and es = True and d = "Some ''2020-01-01''"
      and ns = "Some 2" and si = "Some 7"]
  by (simp add: E0_def ARGS0_def)


lemma setup_all_events:
  "\<forall>ev\<in>set (fst (setup_all E ds w)). \<exists>d. ev = Setup_mypy d"
proof (induction ds arbitrary: w)
  case Nil
  show ?case by simp
next
  case (Cons d ds)
  show ?case
  proof (cases "x_setup_mypy E d w")
    case (Inl e)
    then show ?thesis by (simp add: setup_mypy_def)
  next
    case (Inr a)
    obtain exe w1 where a: "a = (exe, w1)" by (cases a)
    obtain tr r where s: "setup_all E ds w1 = (tr, r)" by (cases "setup_all E ds w1")
    from Cons.IH [of w1] s have tr: "\<forall>ev\<in>set tr. \<exists>d. ev = Setup_mypy d" by simp
    show ?thesis
      using Inr a s tr by (cases r) (auto simp: setup_mypy_def split: prod.splits)
  qed
qed

lemma py_index_not_ValueError: "py_index xs i \<noteq> Inl (ValueError m)"
  by (simp add: py_index_def)

lemma select_projects_empty_iff:
  "select_projects from_location get_projects re_search_I ARGS
     = Inl (ValueError ''No projects selected!'') \<longleftrightarrow>
   \<not> truthy_str (local_project ARGS) \<and> filter_projects get_projects re_search_I ARGS = []"
  by (simp add: select_projects_def Let_def py_index_not_ValueError split: option.splits)

lemma primer_select_fails:
  assumes "select_projects (x_from_location E) (x_get_projects E) (x_re_search_I E) ARGS = Inl e"
  shows "primer E ARGS w = ([], Inl e)"
  using assms by (simp add: primer_def select_projects_of_def)

lemma bisect_select_fails:
  assumes "select_projects (x_from_location E) (x_get_projects E) (x_re_search_I E) ARGS = Inl e"
  shows "\<exists>tr r. bisect E ARGS w = Some (tr, Inl r) \<and> set tr \<subseteq> {Setup_mypy ''bisect_mypy''}"
proof -
  have "\<exists>tr r. bisect_init E ARGS w = (tr, Inl r) \<and> set tr \<subseteq> {Setup_mypy ''bisect_mypy''}"
  proof (cases "x_setup_mypy E ''bisect_mypy'' w")
    case (Inl e')
    then show ?thesis
      by (simp add: bisect_init_def py_assert_def setup_mypy_def)
  next
    case (Inr a)
    then show ?thesis using assms
      by (cases a) (simp add: bisect_init_def py_assert_def setup_mypy_def select_projects_of_def)
  qed
  then show ?thesis by (auto simp: bisect_def)
qed

lemma validate_select_fails:
  assumes "select_projects (x_from_location E) (x_get_projects E) (x_re_search_I E) ARGS = Inl e"
  shows "\<exists>evs r. validate_expected_success E ARGS w = ([Gather evs], Inl r) \<and>
           (\<forall>ev\<in>set evs. \<exists>d. ev = Setup_mypy d)"
proof -
  let ?s = "setup_all E (map (\<lambda>v. ''mypy_'' @ v) RECENT_MYPYS) w"
  obtain evs r where s: "?s = (evs, r)" by (cases ?s)
  from setup_all_events [of E "map (\<lambda>v. ''mypy_'' @ v) RECENT_MYPYS" w] s
  have evs: "\<forall>ev\<in>set evs. \<exists>d. ev = Setup_mypy d" by simp
  show ?thesis
  proof (cases r)
    case (Inl e')
    with s evs show ?thesis
      by (simp add: validate_expected_success_def concurrently_def)
  next
    case (Inr a)
    with s evs assms show ?thesis
      by (cases a) (simp add: validate_expected_success_def concurrently_def select_projects_of_def)
  qed
qed

text \<open>
  Claim C8 as stated fails: with a selector that matches no project,
  \<^verbatim>\<open>validate_expected_success\<close> has started the four concurrent installations of line 180
  when \<^verbatim>\<open>select_projects\<close> raises at line 208.
\<close>

theorem validate_sets_up_before_selecting:
  "validate_expected_success E0 (ARGS0\<lparr>project_selector := Some ''nomatch''\<rparr>) ()
   = ([Gather [Setup_mypy ''mypy_0.991'', Setup_mypy ''mypy_0.982'', Setup_mypy ''mypy_0.971'',
               Setup_mypy ''mypy_0.961'']],
      Inl (ValueError ''No projects selected!''))"
  by (simp add: validate_expected_success_def concurrently_def select_projects_of_def
      setup_mypy_def RECENT_MYPYS_def E0_def ARGS0_def select_projects_def filter_projects_def
      truthy_str_def P5_def P3_def P2_def sublist_code prefix_code)


text \<open>
  Claim C8, as amended. \<^verbatim>\<open>select_projects\<close> raises \<^verbatim>\<open>ValueError("No projects selected!")\<close>
  exactly when no local project is given and the filters leave no project, whatever the
  sharding options are; a selection that is not empty never raises it. When the selection
  raises, \<^verbatim>\<open>primer\<close> has done nothing before, \<^verbatim>\<open>bisect\<close> has at most installed its checker, and
  \<^verbatim>\<open>validate_expected_success\<close> has only started its concurrent installations: no project
  has been set up or checked.
\<close>

theorem selection_empty_error:
  "(select_projects from_location get_projects re_search_I ARGS
      = Inl (ValueError ''No projects selected!'') \<longleftrightarrow>
    \<not> truthy_str (local_project ARGS) \<and> filter_projects get_projects re_search_I ARGS = []) \<and>
   (select_projects (x_from_location E) (x_get_projects E) (x_re_search_I E) ARGS = Inl e \<longrightarrow>
      primer E ARGS w = ([], Inl e) \<and>
      (\<exists>tr r. bisect E ARGS w = Some (tr, Inl r) \<and> set tr \<subseteq> {Setup_mypy ''bisect_mypy''}) \<and>
      (\<exists>evs r. validate_expected_success E ARGS w = ([Gather evs], Inl r) \<and>
         (\<forall>ev\<in>set evs. \<exists>d. ev = Setup_mypy d)))"
  using select_projects_empty_iff [of from_location get_projects re_search_I ARGS]
    primer_select_fails [of E ARGS e w] bisect_select_fails [of E ARGS e w]
    validate_select_fails [of E ARGS e w]
  by blast

theorem selection_empty_error_witness:
  "select_projects (x_from_location E0) (x_get_projects E0) (x_re_search_I E0)
     (ARGS0\<lparr>project_selector := Some ''nomatch'', num_shards := Some 2, shard_index := Some 0\<rparr>)
     = Inl (ValueError ''No projects selected!'') \<and>
   primer E0
     (ARGS0\<lparr>project_selector := Some ''nomatch'', num_shards := Some 2, shard_index := Some 0\<rparr>)
     () = ([], Inl (ValueError ''No projects selected!''))"
proof -
  let ?A = "ARGS0\<lparr>project_selector := Some ''nomatch'', num_shards := Some 2,
                   shard_index := Some 0\<rparr>"
  have f: "filter_projects (x_get_projects E0) (x_re_search_I E0) ?A = []"
    by (simp add: filter_projects_def E0_def ARGS0_def truthy_str_def P5_def P3_def P2_def
        sublist_code prefix_code)
  have l: "\<not> truthy_str (local_project ?A)" by (simp add: ARGS0_def truthy_str_def)
  from f l selection_empty_error [of "x_from_location E0" "x_get_projects E0"
      "x_re_search_I E0" ?A E0 "ValueError ''No projects selected!''" "()"]
  show ?thesis by simp
qed


subsection \<open>Exit codes\<close>

lemma primer_loop_skip:
  "\<not> counted ARGS r \<Longrightarrow>
   primer_loop ARGS retcode (Inr r # rest) = primer_loop ARGS retcode rest"
  by (auto simp: counted_def)

lemma primer_loop_count:
  "counted ARGS r \<Longrightarrow>
   snd (primer_loop ARGS retcode (Inr r # rest))
   = snd (primer_loop ARGS (if retcode = 0 \<and> diff r \<noteq> [] then 1 else retcode) rest)"
  by (auto simp: counted_def)

lemma primer_loop_retcode:
  "snd (primer_loop ARGS retcode (map Inr results))
   = Inr (if retcode \<noteq> 0 then retcode
          else if \<exists>r\<in>set results. counted ARGS r \<and> diff r \<noteq> [] then 1 else 0)"
proof (induction results arbitrary: retcode)
  case Nil
  show ?case by simp
next
  case (Cons r results)
  show ?case
  proof (cases "counted ARGS r")
    case False
    have "snd (primer_loop ARGS retcode (map Inr (r # results)))
          = snd (primer_loop ARGS retcode (map Inr results))"
      using False by (simp add: primer_loop_skip del: primer_loop.simps)
    also have "\<dots> = Inr (if retcode \<noteq> 0 then retcode
          else if \<exists>r\<in>set results. counted ARGS r \<and> diff r \<noteq> [] then 1 else 0)"
      by (rule Cons.IH)
    finally show ?thesis using False by auto
  next
    case True
    let ?rc = "if retcode = 0 \<and> diff r \<noteq> [] then 1 else retcode"
    have "snd (primer_loop ARGS retcode (map Inr (r # results)))
          = snd (primer_loop ARGS ?rc (map Inr results))"
      using True by (simp add: primer_loop_count del: primer_loop.simps)
    also have "\<dots> = Inr (if ?rc \<noteq> 0 then ?rc
          else if \<exists>r\<in>set results. counted ARGS r \<and> diff r \<noteq> [] then 1 else 0)"
      by (rule Cons.IH)
    finally show ?thesis using True by auto
  qed
qed

lemma primer_loop_raises:
  "snd (primer_loop ARGS retcode (map Inr results @ Inl e # rest)) = Inl e"
proof (induction results arbitrary: retcode)
  case Nil
  show ?case by simp
next
  case (Cons r results)
  show ?case
  proof (cases "counted ARGS r")
    case False
    then show ?thesis
      using Cons.IH [of retcode] by (simp add: primer_loop_skip del: primer_loop.simps)
  next
    case True
    then show ?thesis
      using Cons.IH [of "if retcode = 0 \<and> diff r \<noteq> [] then 1 else retcode"]
      by (simp add: primer_loop_count del: primer_loop.simps)
  qed
qed

text \<open>
  Claim C5, as amended. The return code of \<^verbatim>\<open>primer\<close> is 1 when at least one result that the
  loop does not skip has a diff, and 0 otherwise; a result is skipped when \<^verbatim>\<open>--old-success\<close>
  is set and its old run did not succeed. An exception of an awaited result leaves
  \<^verbatim>\<open>primer\<close>. \<^verbatim>\<open>main\<close> exits with the return code, with 0 for \<^verbatim>\<open>None\<close>, and with 70 after
  printing the traceback once when \<^verbatim>\<open>inner()\<close> raised.
\<close>

theorem exit_codes:
  "snd (primer_loop ARGS 0 (map Inr results))
     = Inr (if \<exists>r\<in>set results.
                 \<not> (old_success ARGS \<and> \<not> success (old_result r)) \<and> diff r \<noteq> []
            then 1 else 0) \<and>
   snd (primer_loop ARGS 0 (map Inr results @ Inl e # rest)) = Inl e \<and>
   main (tr, Inr (Some retcode)) = (tr, retcode) \<and>
   main (tr, Inr None) = (tr, 0) \<and>
   main (tr, Inl e) = (tr @ [Print_traceback e], 70) \<and>
   snd (main (inner_primer E ARGS w))
     = (case snd (primer E ARGS w) of Inl e' \<Rightarrow> 70 | Inr retcode' \<Rightarrow> retcode')"
proof -
  have "snd (main (inner_primer E ARGS w))
     = (case snd (primer E ARGS w) of Inl e' \<Rightarrow> 70 | Inr retcode' \<Rightarrow> retcode')"
    by (cases "primer E ARGS w") (auto simp: main_def inner_primer_def split: sum.splits)
  then show ?thesis
    using primer_loop_retcode [of ARGS 0 results] primer_loop_raises [of ARGS 0 results e rest]
    by (simp add: main_def counted_def)
qed

text \<open>
  Claim C5 as stated fails: with \<^verbatim>\<open>--old-success\<close>, a result that has a diff and whose old
  run failed is skipped, and the exit code is 0.
\<close>

theorem diff_without_exit_code_1:
  "diff R_skipped \<noteq> [] \<and>
   primer_loop (ARGS0\<lparr>old_success := True\<rparr>) 0 [Inr R_skipped] = ([], Inr 0) \<and>
   main ([], Inr (Some 0)) = ([], 0)"
  by (simp add: R_skipped_def ARGS0_def main_def)

theorem exit_codes_witness:
  "primer_loop ARGS0 0 [Inr R_skipped]
     = ([Print ''concise'', Print []], Inr 1) \<and>
   snd (primer_loop ARGS0 0 (map Inr [R_skipped])) = Inr 1 \<and>
   main ([], Inl AssertionError) = ([Print_traceback AssertionError], 70)"
proof -
  have "primer_loop ARGS0 0 [Inr R_skipped] = ([Print ''concise'', Print []], Inr 1)"
    by (simp add: R_skipped_def ARGS0_def report_def)
  then show ?thesis
    using exit_codes [of ARGS0 "[R_skipped]" AssertionError "[]" "[]" 0 E0 "()"]
    by (simp add: R_skipped_def ARGS0_def)
qed


subsection \<open>The assertion before the loop\<close>

lemma and_then_events:
  assumes "\<forall>ev\<in>set (fst m). P ev" and "\<And>a. \<forall>ev\<in>set (fst (f a)). P ev"
  shows "\<forall>ev\<in>set (fst (and_then m f)). P ev"
proof (cases m)
  case (Pair tr r)
  show ?thesis
  proof (cases r)
    case (Inl e)
    with Pair assms(1) show ?thesis by simp
  next
    case (Inr a)
    with Pair assms(1) assms(2) [of a] show ?thesis by auto
  qed
qed

lemma bisect_init_events:
  "\<forall>ev\<in>set (fst (bisect_init E ARGS w)). ev \<noteq> submodule_update"
  unfolding bisect_init_def case_prod_beta
  by (intro and_then_events)
     (simp_all add: py_assert_def setup_mypy_def select_projects_of_def wait_setup_def
        gather_def concurrently_def run_def Let_def submodule_update_def split: prod.splits)

lemma bisect_step_first:
  "\<exists>evs. fst (bisect_step E ARGS mypy_exe projects old_results w) = submodule_update # evs"
proof (cases "x_run E [''git'', ''submodule'', ''update'', ''--init''] w")
  case (Inl e)
  then show ?thesis by (simp add: bisect_step_def run_def submodule_update_def)
next
  case (Inr a)
  then show ?thesis by (simp add: bisect_step_def run_def submodule_update_def)
qed

lemma bisect_loop_trace:
  assumes "bisect_loop E ARGS mypy_exe projects old_results w tr0 = Some y"
  shows "\<exists>evs. fst y = tr0 @ submodule_update # evs"
proof (rule bisect_loop.raw_induct
    [where P = "\<lambda>E ARGS mypy_exe projects old_results w tr0 y.
                  \<exists>evs. fst y = tr0 @ submodule_update # evs", OF _ assms], goal_cases)
  case (1 loop E ARGS mypy_exe projects old_results w tr0 y)
  obtain evs where evs: "fst (bisect_step E ARGS mypy_exe projects old_results w)
      = submodule_update # evs"
    using bisect_step_first [of E ARGS mypy_exe projects old_results w] by (elim exE)
  obtain tr1 r1 where s: "bisect_step E ARGS mypy_exe projects old_results w = (tr1, r1)"
    by (cases "bisect_step E ARGS mypy_exe projects old_results w")
  with evs have tr1: "tr1 = submodule_update # evs" by simp
  show ?case
  proof (cases r1)
    case (Inl e)
    with 1(2) s tr1 show ?thesis by auto
  next
    case (Inr a)
    obtain out w' where a: "a = (out, w')" by (cases a)
    show ?thesis
    proof (cases out)
      case None
      with 1(2) s Inr a
      have "loop E ARGS mypy_exe projects old_results w' (tr0 @ tr1) = Some y"
        by simp
      from 1(1) [OF this] tr1 show ?thesis by auto
    next
      case (Some stdout)
      with 1(2) s Inr a tr1 show ?thesis by auto
    qed
  qed
qed

text \<open>
  Claim C6. When the initialisation of \<^verbatim>\<open>bisect\<close> (lines 239--270) has run and the verdict
  of \<^verbatim>\<open>are_results_good(old_results)\<close> is not good, \<^verbatim>\<open>bisect\<close> ends with an exception,
  \<^verbatim>\<open>AssertionError\<close> when the verdict is bad, and the loop is never entered: the trace of the
  run is the trace of the initialisation and has no \<^verbatim>\<open>git submodule update --init\<close>, the
  command that every run of the loop issues first.
\<close>

theorem assertion_guards_loop:
  assumes "bisect_init E ARGS w = (tr, Inr (mypy_exe, projects, old_results, w1))"
    and "are_results_good (x_re_search E) (x_strip_colour_code E) ARGS projects
           old_results old_results \<noteq> Inr True"
  shows "(\<exists>e. bisect E ARGS w = Some (tr, Inl e)) \<and>
    (are_results_good (x_re_search E) (x_strip_colour_code E) ARGS projects
           old_results old_results = Inr False \<longrightarrow>
       bisect E ARGS w = Some (tr, Inl AssertionError)) \<and>
    Run [''git'', ''submodule'', ''update'', ''--init''] \<notin> set tr \<and>
    (\<forall>w' tr0 tr' r. bisect_loop E ARGS mypy_exe projects old_results w' tr0 = Some (tr', r) \<longrightarrow>
       Run [''git'', ''submodule'', ''update'', ''--init''] \<in> set tr')"
proof -
  let ?v = "are_results_good (x_re_search E) (x_strip_colour_code E) ARGS projects
           old_results old_results"
  have a: "\<exists>e. bisect E ARGS w = Some (tr, Inl e)"
  proof (cases ?v)
    case (Inl e)
    with assms(1) show ?thesis by (simp add: bisect_def)
  next
    case (Inr b)
    with assms(2) have "\<not> b" by simp
    with Inr assms(1) show ?thesis by (simp add: bisect_def)
  qed
  have b: "?v = Inr False \<longrightarrow> bisect E ARGS w = Some (tr, Inl AssertionError)"
    using assms(1) by (simp add: bisect_def)
  have c: "Run [''git'', ''submodule'', ''update'', ''--init''] \<notin> set tr"
    using bisect_init_events [of E ARGS w] assms(1) by (auto simp: submodule_update_def)
  have d: "\<forall>w' tr0 tr' r. bisect_loop E ARGS mypy_exe projects old_results w' tr0 = Some (tr', r) \<longrightarrow>
       Run [''git'', ''submodule'', ''update'', ''--init''] \<in> set tr'"
  proof (intro allI impI)
    fix w' tr0 tr' r
    assume "bisect_loop E ARGS mypy_exe projects old_results w' tr0 = Some (tr', r)"
    from bisect_loop_trace [OF this]
    show "Run [''git'', ''submodule'', ''update'', ''--init''] \<in> set tr'"
      by (auto simp: submodule_update_def)
  qed
  from a b c d show ?thesis by blast
qed




theorem assertion_guards_loop_witness:
  "are_results_good sublist strip_colour_code (ARGS0\<lparr>bisect_output := Some ''Success''\<rparr>)
     [P5, P3, P2]
     (dict [(''five'', \<lparr>output_text = ''Success: no issues found'', success = True\<rparr>),
            (''three'', \<lparr>output_text = ''Success: no issues found'', success = True\<rparr>),
            (''two'', \<lparr>output_text = ''Success: no issues found'', success = True\<rparr>)])
     (dict [(''five'', \<lparr>output_text = ''Success: no issues found'', success = True\<rparr>),
            (''three'', \<lparr>output_text = ''Success: no issues found'', success = True\<rparr>),
            (''two'', \<lparr>output_text = ''Success: no issues found'', success = True\<rparr>)])
     = Inr False \<and>
   bisect E0 (ARGS0\<lparr>bisect_output := Some ''Success''\<rparr>) ()
     = Some ([Setup_mypy ''bisect_mypy'',
              Gather [Project_setup P5, Project_setup P3, Project_setup P2],
              Gather [Run_mypy ''bisect_mypy'' P5, Run_mypy ''bisect_mypy'' P3,
                      Run_mypy ''bisect_mypy'' P2],
              Run [''git'', ''bisect'', ''start''],
              Run [''git'', ''bisect'', ''good''],
              Get_revision ''origin/HEAD'',
              Run [''git'', ''bisect'', ''bad'', ''origin/HEAD'']],
             Inl AssertionError)"
proof -
  let ?A = "ARGS0\<lparr>bisect_output := Some ''Success''\<rparr>"
  let ?r = "\<lparr>output_text = ''Success: no issues found'', success = True\<rparr>"
  let ?old = "dict [(''five'', ?r), (''three'', ?r), (''two'', ?r)]"
  let ?tr = "[Setup_mypy ''bisect_mypy'',
              Gather [Project_setup P5, Project_setup P3, Project_setup P2],
              Gather [Run_mypy ''bisect_mypy'' P5, Run_mypy ''bisect_mypy'' P3,
                      Run_mypy ''bisect_mypy'' P2],
              Run [''git'', ''bisect'', ''start''],
              Run [''git'', ''bisect'', ''good''],
              Get_revision ''origin/HEAD'',
              Run [''git'', ''bisect'', ''bad'', ''origin/HEAD'']]"
  have sel: "select_projects (x_from_location E0) (x_get_projects E0) (x_re_search_I E0) ?A
      = Inr [P5, P3, P2]"
    by (simp add: select_projects_def filter_projects_def E0_def ARGS0_def truthy_str_def
        truthy_int_def)
  have init: "bisect_init E0 ?A () = (?tr, Inr (''bisect_mypy'', [P5, P3, P2], ?old, ()))"
    using sel
    by (simp add: bisect_init_def py_assert_def setup_mypy_def select_projects_of_def
        wait_setup_def gather_def concurrently_def run_wrapper_def run_mypy_def run_def
        Let_def)
       (simp add: E0_def ARGS0_def truthy_str_def P5_def P3_def P2_def)
  have s: "sublist ''Success'' ''Success: no issues found''"
    by (simp add: sublist_code prefix_code)
  have v: "are_results_good (x_re_search E0) (x_strip_colour_code E0) ?A [P5, P3, P2] ?old ?old
      = Inr False"
    using s
    by (simp add: are_results_good_def pattern_found_def getitem_def dict_def E0_def
        truthy_str_def P5_def)
  then have ne: "are_results_good (x_re_search E0) (x_strip_colour_code E0) ?A [P5, P3, P2]
      ?old ?old \<noteq> Inr True"
    by simp
  from assertion_guards_loop [OF init ne] v show ?thesis
    by (simp add: E0_def)
qed



subsection \<open>The bisection loop\<close>

lemma size_record_verdict:
  "interval_size (record_verdict v s) =
     (if v = ''good'' then interval_size s - interval_size s div 2 else interval_size s div 2)"
  by (auto simp: record_verdict_def interval_size_def candidate_def)

lemma record_verdict_narrows:
  assumes "2 \<le> interval_size s"
  shows "interval_size (record_verdict v s) < interval_size s"
    and "1 \<le> interval_size (record_verdict v s)"
    and "interval_size (record_verdict v s) \<le> (interval_size s + 1) div 2"
  using assms unfolding size_record_verdict by (cases "v = ''good''"; simp; linarith)+

lemma record_verdict_collapsed:
  "interval_size s \<le> 1 \<Longrightarrow> interval_size (record_verdict v s) \<le> 1"
  by (simp add: size_record_verdict)

lemma ceillog2_halve:
  assumes "2 \<le> d" and "1 \<le> d'" and "d' \<le> (d + 1) div 2"
  shows "Suc (ceillog2 d') \<le> ceillog2 d"
proof -
  let ?k = "ceillog2 d"
  have dk: "d \<le> 2 ^ ?k" by (rule le_two_power_ceillog2)
  have "?k \<noteq> 0"
  proof
    assume "?k = 0"
    with dk assms(1) show False by simp
  qed
  then obtain j where k: "?k = Suc j" by (cases ?k) simp_all
  with dk have "d \<le> 2 * 2 ^ j" by simp
  then have "(d + 1) div 2 \<le> 2 ^ j" by simp
  with assms(3) have "d' \<le> 2 ^ j" by simp
  with assms(2) have "ceillog2 d' \<le> j" by (simp add: ceillog2_le_iff)
  with k show ?thesis by simp
qed

lemma signal_in_report:
  "sublist ''first bad commit'' (step_report rev_id s) \<longleftrightarrow> interval_size s \<le> 1"
proof (cases "interval_size s \<le> 1")
  case True
  have "sublist ''first bad commit'' ((rev_id (known_bad s) @ '' is the '') @ ''first bad commit'' @ [])"
    by (rule sublist_appendI)
  with True show ?thesis by (simp add: step_report_def)
next
  case False
  have "\<not> sublist ''first bad commit'' ''Bisecting''"
    by (simp add: sublist_code prefix_code)
  with False show ?thesis by (simp add: step_report_def)
qed

lemma gather_seq_total:
  assumes "\<And>x. f x = ([ev x], Inr (g x))"
  shows "gather_seq f xs = (map ev xs, Inr (map g xs))"
  by (induction xs) (simp_all add: assms)

lemma dom_dict: "dom (dict (map (\<lambda>p. (name p, r p)) ps)) = name ` set ps"
  by (auto simp: dict_def dom_map_of_conv_image_fst image_iff)

lemma verdict_defined:
  assumes "\<forall>p\<in>set projects. name p \<in> dom old_results"
  shows "\<exists>g. are_results_good re strip ARGS projects old_results
           (dict (map (\<lambda>p. (name p, r p)) projects)) = Inr g"
proof -
  have k: "\<forall>p\<in>set projects. name p \<in> dom (dict (map (\<lambda>p. (name p, r p)) projects))"
    by (simp add: dom_dict)
  show ?thesis
  proof (cases "truthy_str (bisect_output ARGS)")
    case True
    from are_results_good_pattern [OF True k] show ?thesis by blast
  next
    case False
    from k assms have "\<forall>p\<in>set projects.
        name p \<in> dom (dict (map (\<lambda>p. (name p, r p)) projects)) \<and> name p \<in> dom old_results"
      by simp
    from are_results_good_equal [OF False this] show ?thesis by blast
  qed
qed

lemma bisection_step_shape:
  assumes "\<forall>p\<in>set projects. name p \<in> dom old_results"
  shows "\<exists>v. (v = ''good'' \<or> v = ''bad'') \<and>
     bisect_step (bisection_env checker rev_id E) ARGS mypy_exe projects old_results s =
       (if interval_size (record_verdict v s) \<le> 1
        then ([submodule_update, Gather (map (Run_mypy mypy_exe) projects),
               Run [''git'', ''bisect'', v], Print (step_report rev_id (record_verdict v s))],
              Inr (Some (step_report rev_id (record_verdict v s)), record_verdict v s))
        else ([submodule_update, Gather (map (Run_mypy mypy_exe) projects),
               Run [''git'', ''bisect'', v]],
              Inr (None, record_verdict v s)))"
proof -
  let ?E = "bisection_env checker rev_id E"
  let ?pairs = "map (\<lambda>p. (name p, checker (candidate s) p)) projects"
  have r1: "run ?E [''git'', ''submodule'', ''update'', ''--init''] s
      = ([submodule_update], Inr ([], s))"
    by (simp add: run_def bisection_env_def git_bisect_def submodule_update_def)
  have g: "gather (run_wrapper ?E mypy_exe s) projects
      = ([Gather (map (Run_mypy mypy_exe) projects)], Inr ?pairs)"
    unfolding gather_def concurrently_def
    by (subst gather_seq_total [where ev = "Run_mypy mypy_exe"
          and g = "\<lambda>p. (name p, checker (candidate s) p)"])
       (simp_all add: run_wrapper_def run_mypy_def bisection_env_def)
  from verdict_defined [OF assms, of "x_re_search E" "x_strip_colour_code E" ARGS
      "checker (candidate s)"]
  obtain is_good where v: "are_results_good (x_re_search ?E) (x_strip_colour_code ?E) ARGS
      projects old_results (dict ?pairs) = Inr is_good"
    by (auto simp: bisection_env_def)
  have r2: "run ?E [''git'', ''bisect'', v'] s
      = ([Run [''git'', ''bisect'', v']],
         Inr (step_report rev_id (record_verdict v' s), record_verdict v' s))"
    if "v' = ''good'' \<or> v' = ''bad''" for v'
    using that by (auto simp: run_def bisection_env_def git_bisect_def Let_def)
  show ?thesis
  proof (cases is_good)
    case True
    with v have v': "are_results_good (x_re_search ?E) (x_strip_colour_code ?E) ARGS
      projects old_results (dict ?pairs) = Inr True"
      by simp
    have "bisect_step ?E ARGS mypy_exe projects old_results s =
       (if interval_size (record_verdict ''good'' s) \<le> 1
        then ([submodule_update, Gather (map (Run_mypy mypy_exe) projects),
               Run [''git'', ''bisect'', ''good''],
               Print (step_report rev_id (record_verdict ''good'' s))],
              Inr (Some (step_report rev_id (record_verdict ''good'' s)),
                   record_verdict ''good'' s))
        else ([submodule_update, Gather (map (Run_mypy mypy_exe) projects),
               Run [''git'', ''bisect'', ''good'']],
              Inr (None, record_verdict ''good'' s)))"
      unfolding bisect_step_def
      by (simp add: r1 g v' r2 [of "''good''"] signal_in_report)
    then show ?thesis by (intro exI [of _ "''good''"] conjI disjI1 refl)
  next
    case False
    with v have v': "are_results_good (x_re_search ?E) (x_strip_colour_code ?E) ARGS
      projects old_results (dict ?pairs) = Inr False"
      by simp
    have "bisect_step ?E ARGS mypy_exe projects old_results s =
       (if interval_size (record_verdict ''bad'' s) \<le> 1
        then ([submodule_update, Gather (map (Run_mypy mypy_exe) projects),
               Run [''git'', ''bisect'', ''bad''],
               Print (step_report rev_id (record_verdict ''bad'' s))],
              Inr (Some (step_report rev_id (record_verdict ''bad'' s)),
                   record_verdict ''bad'' s))
        else ([submodule_update, Gather (map (Run_mypy mypy_exe) projects),
               Run [''git'', ''bisect'', ''bad'']],
              Inr (None, record_verdict ''bad'' s)))"
      unfolding bisect_step_def
      by (simp add: r1 g v' r2 [of "''bad''"] signal_in_report)
    then show ?thesis by (intro exI [of _ "''bad''"] conjI disjI2 refl)
  qed
qed


lemma steps_pass:
  assumes "v = ''good'' \<or> v = ''bad''"
  shows "steps (submodule_update # Gather evs # Run [''git'', ''bisect'', v] # rest) = Suc (steps rest)"
  using assms by (auto simp: steps_def is_verdict_def submodule_update_def)

lemma steps_Print: "steps [Print r] = 0"
  by (simp add: steps_def is_verdict_def)

lemma steps_append: "steps (xs @ ys) = steps xs + steps ys"
  by (simp add: steps_def)

lemma bisection_loop_ends:
  assumes keys: "\<forall>p\<in>set projects. name p \<in> dom old_results"
  shows "\<exists>tr report.
     bisect_loop (bisection_env checker rev_id E) ARGS mypy_exe projects old_results s tr0
       = Some (tr0 @ tr, Inr ()) \<and>
     1 \<le> steps tr \<and> steps tr \<le> max 1 (ceillog2 (interval_size s)) \<and>
     tr \<noteq> [] \<and> last tr = Print report \<and> sublist ''first bad commit'' report"
proof (induction "interval_size s" arbitrary: s tr0 rule: less_induct)
  case less
  let ?E = "bisection_env checker rev_id E"
  from bisection_step_shape [OF keys, of checker rev_id E ARGS mypy_exe s]
  obtain v where v: "v = ''good'' \<or> v = ''bad''"
    and shape: "bisect_step ?E ARGS mypy_exe projects old_results s =
       (if interval_size (record_verdict v s) \<le> 1
        then ([submodule_update, Gather (map (Run_mypy mypy_exe) projects),
               Run [''git'', ''bisect'', v], Print (step_report rev_id (record_verdict v s))],
              Inr (Some (step_report rev_id (record_verdict v s)), record_verdict v s))
        else ([submodule_update, Gather (map (Run_mypy mypy_exe) projects),
               Run [''git'', ''bisect'', v]],
              Inr (None, record_verdict v s)))"
    by blast
  let ?s' = "record_verdict v s"
  show ?case
  proof (cases "interval_size ?s' \<le> 1")
    case True
    let ?tr = "[submodule_update, Gather (map (Run_mypy mypy_exe) projects),
               Run [''git'', ''bisect'', v], Print (step_report rev_id ?s')]"
    have "bisect_loop ?E ARGS mypy_exe projects old_results s tr0 = Some (tr0 @ ?tr, Inr ())"
      using True by (subst bisect_loop.simps) (simp add: shape)
    moreover have "steps ?tr = 1"
      by (simp add: steps_pass [OF v] steps_Print)
    moreover have "sublist ''first bad commit'' (step_report rev_id ?s')"
      using True by (simp add: signal_in_report)
    ultimately show ?thesis by (intro exI [of _ ?tr] exI [of _ "step_report rev_id ?s'"]) simp
  next
    case False
    have big: "2 \<le> interval_size s"
    proof (rule ccontr)
      assume "\<not> 2 \<le> interval_size s"
      then have "interval_size s \<le> 1" by simp
      from record_verdict_collapsed [OF this] False show False by simp
    qed
    let ?evs = "[submodule_update, Gather (map (Run_mypy mypy_exe) projects),
               Run [''git'', ''bisect'', v]]"
    have unfold: "bisect_loop ?E ARGS mypy_exe projects old_results s tr0
        = bisect_loop ?E ARGS mypy_exe projects old_results ?s' (tr0 @ ?evs)"
      using False by (subst bisect_loop.simps) (simp add: shape)
    from less [OF record_verdict_narrows(1) [OF big], of v "tr0 @ ?evs"]
    obtain tr' report where
      l: "bisect_loop ?E ARGS mypy_exe projects old_results ?s' (tr0 @ ?evs)
          = Some ((tr0 @ ?evs) @ tr', Inr ())"
      and s1: "1 \<le> steps tr'" and s2: "steps tr' \<le> max 1 (ceillog2 (interval_size ?s'))"
      and ne: "tr' \<noteq> []" and la: "last tr' = Print report"
      and sig: "sublist ''first bad commit'' report"
      by blast
    from False have "2 \<le> interval_size ?s'" by simp
    then have "1 \<le> ceillog2 (interval_size ?s')"
      by (simp add: ceillog2_ge_iff)
    with s2 have s2': "steps tr' \<le> ceillog2 (interval_size ?s')" by simp
    have "Suc (ceillog2 (interval_size ?s')) \<le> ceillog2 (interval_size s)"
      by (rule ceillog2_halve [OF big record_verdict_narrows(2) [OF big]
            record_verdict_narrows(3) [OF big]])
    with s2' have bound: "Suc (steps tr') \<le> max 1 (ceillog2 (interval_size s))" by simp
    have st: "steps (?evs @ tr') = Suc (steps tr')"
      by (simp add: steps_pass [OF v])
    have "bisect_loop ?E ARGS mypy_exe projects old_results s tr0
        = Some (tr0 @ (?evs @ tr'), Inr ())"
      using unfold l by simp
    moreover have "last (?evs @ tr') = Print report" using ne la by simp
    ultimately show ?thesis
      using st bound sig ne
      by (intro exI [of _ "?evs @ tr'"] exI [of _ report]) simp
  qed
qed

lemma bisect_step_report:
  assumes "bisect_step E ARGS mypy_exe projects old_results w = (evs, Inr (out, w'))"
  shows "\<exists>w1 v stdout. x_run E [''git'', ''bisect'', v] w1 = Inr (stdout, w') \<and>
           out = (if sublist ''first bad commit'' stdout then Some stdout else None)"
  using assms unfolding bisect_step_def and_then_def run_def
  by (auto split: prod.splits sum.splits if_splits)

text \<open>
  Claim C4, as amended, over the bisection primitive above. A step on an interval of at
  least two candidates leaves an interval that is smaller and not empty. The loop of
  \<^verbatim>\<open>bisect\<close> returns, after at least one pass and at most \<open>max 1 (ceillog2 n)\<close> passes for an
  interval of \<open>n\<close> candidates, and what it printed last is a report with the words
  ``first bad commit''. For every primitive, a pass that ends without an exception returns
  exactly when the report of its \<^verbatim>\<open>git bisect\<close> command contains these words, and the loop
  goes on with the next pass otherwise.
\<close>

theorem bisection_narrows_and_ends:
  assumes "\<forall>p\<in>set projects. name p \<in> dom old_results"
  shows "(\<forall>v. 2 \<le> interval_size s \<longrightarrow>
           1 \<le> interval_size (record_verdict v s) \<and>
           interval_size (record_verdict v s) < interval_size s) \<and>
    (\<exists>tr report.
       bisect_loop (bisection_env checker rev_id E) ARGS mypy_exe projects old_results s pre
         = Some (pre @ tr, Inr ()) \<and>
       1 \<le> steps tr \<and> steps tr \<le> max 1 (ceillog2 (interval_size s)) \<and>
       last tr = Print report \<and> sublist ''first bad commit'' report) \<and>
    (bisect_step E' ARGS mypy_exe projects old_results w = (evs, Inr (out, w')) \<longrightarrow>
       (\<exists>w1 v stdout. x_run E' [''git'', ''bisect'', v] w1 = Inr (stdout, w') \<and>
          out = (if sublist ''first bad commit'' stdout then Some stdout else None)) \<and>
       bisect_loop E' ARGS mypy_exe projects old_results w pre' =
         (case out of
            Some stdout \<Rightarrow> Some (pre' @ evs, Inr ())
          | None \<Rightarrow> bisect_loop E' ARGS mypy_exe projects old_results w' (pre' @ evs)))"
proof (intro conjI allI impI)
  fix v assume "2 \<le> interval_size s"
  then show "1 \<le> interval_size (record_verdict v s)"
    and "interval_size (record_verdict v s) < interval_size s"
    by (rule record_verdict_narrows(2), rule record_verdict_narrows(1))
next
  from bisection_loop_ends [OF assms, of checker rev_id E ARGS mypy_exe s pre]
  show "\<exists>tr report.
       bisect_loop (bisection_env checker rev_id E) ARGS mypy_exe projects old_results s pre
         = Some (pre @ tr, Inr ()) \<and>
       1 \<le> steps tr \<and> steps tr \<le> max 1 (ceillog2 (interval_size s)) \<and>
       last tr = Print report \<and> sublist ''first bad commit'' report"
    by blast
next
  assume "bisect_step E' ARGS mypy_exe projects old_results w = (evs, Inr (out, w'))"
  then show "\<exists>w1 v stdout. x_run E' [''git'', ''bisect'', v] w1 = Inr (stdout, w') \<and>
          out = (if sublist ''first bad commit'' stdout then Some stdout else None)"
    by (rule bisect_step_report)
next
  assume "bisect_step E' ARGS mypy_exe projects old_results w = (evs, Inr (out, w'))"
  then show "bisect_loop E' ARGS mypy_exe projects old_results w pre' =
         (case out of
            Some stdout \<Rightarrow> Some (pre' @ evs, Inr ())
          | None \<Rightarrow> bisect_loop E' ARGS mypy_exe projects old_results w' (pre' @ evs))"
    by (subst bisect_loop.simps) (simp split: option.splits)
qed

lemma EB_step:
  "bisect_step EB ARGS0 ''mypy'' [P5] OLD5 s =
     (let v = (if candidate s < 3 then ''good'' else ''bad''); s' = record_verdict v s
      in if interval_size s' \<le> 1
         then ([submodule_update, Gather [Run_mypy ''mypy'' P5], Run [''git'', ''bisect'', v],
                Print (''rev is the first bad commit'')],
               Inr (Some (''rev is the first bad commit''), s'))
         else ([submodule_update, Gather [Run_mypy ''mypy'' P5], Run [''git'', ''bisect'', v]],
               Inr (None, s')))"
  by (simp add: bisect_step_def run_def gather_def concurrently_def run_wrapper_def
      run_mypy_def EB_def EB0_def CK_def bisection_env_def git_bisect_def submodule_update_def
      are_results_good_def same_output_def getitem_def dict_def OLD5_def ARGS0_def
      truthy_str_def P5_def step_report_def Let_def sublist_code prefix_code)

text \<open>
  Claim C4 as stated fails: on an interval with one candidate \<open>ceillog2 1\<close> is 0, and the
  loop, which looks at the report at the end of a pass only, makes one pass, after which
  the interval is as large as before.
\<close>

theorem single_candidate_takes_a_step:
  "interval_size \<lparr>known_good = 0, known_bad = 1\<rparr> = 1 \<and>
   ceillog2 (interval_size \<lparr>known_good = 0, known_bad = 1\<rparr>) = 0 \<and>
   bisect_loop EB ARGS0 ''mypy'' [P5] OLD5 \<lparr>known_good = 0, known_bad = 1\<rparr> []
     = Some ([submodule_update, Gather [Run_mypy ''mypy'' P5],
              Run [''git'', ''bisect'', ''good''], Print ''rev is the first bad commit''],
             Inr ()) \<and>
   steps [submodule_update, Gather [Run_mypy ''mypy'' P5],
          Run [''git'', ''bisect'', ''good''], Print ''rev is the first bad commit''] = 1 \<and>
   interval_size (record_verdict ''good'' \<lparr>known_good = 0, known_bad = 1\<rparr>) = 1"
proof -
  have "bisect_loop EB ARGS0 ''mypy'' [P5] OLD5 \<lparr>known_good = 0, known_bad = 1\<rparr> []
     = Some ([submodule_update, Gather [Run_mypy ''mypy'' P5],
              Run [''git'', ''bisect'', ''good''], Print ''rev is the first bad commit''],
             Inr ())"
    by (subst bisect_loop.simps)
       (simp add: EB_step candidate_def interval_size_def record_verdict_def)
  then show ?thesis
    by (simp add: interval_size_def record_verdict_def candidate_def steps_def is_verdict_def
        submodule_update_def)
qed

theorem bisection_narrows_and_ends_witness:
  "name P5 \<in> dom OLD5 \<and>
   interval_size (record_verdict ''good'' \<lparr>known_good = 0, known_bad = 4\<rparr>) = 2 \<and>
   (\<exists>tr report.
      bisect_loop EB ARGS0 ''mypy'' [P5] OLD5 \<lparr>known_good = 0, known_bad = 4\<rparr> []
        = Some (tr, Inr ()) \<and>
      1 \<le> steps tr \<and> steps tr \<le> 2 \<and>
      last tr = Print report \<and> sublist ''first bad commit'' report)"
proof -
  have k: "\<forall>p\<in>set [P5]. name p \<in> dom OLD5" by (simp add: P5_def OLD5_def)
  have c: "ceillog2 4 = 2" using ceillog2_2_power [of 2] by simp
  have i: "interval_size \<lparr>known_good = 0, known_bad = 4\<rparr> = 4" by (simp add: interval_size_def)
  have "\<exists>tr report.
      bisect_loop (bisection_env CK (\<lambda>n. ''rev'') EB0) ARGS0 ''mypy'' [P5] OLD5
        \<lparr>known_good = 0, known_bad = 4\<rparr> [] = Some ([] @ tr, Inr ()) \<and>
      1 \<le> steps tr \<and>
      steps tr \<le> max 1 (ceillog2 (interval_size \<lparr>known_good = 0, known_bad = 4\<rparr>)) \<and>
      last tr = Print report \<and> sublist ''first bad commit'' report"
    by (rule bisection_narrows_and_ends [OF k, where E' = EB0 and w = undefined
          and evs = "[]" and out = None and w' = undefined and pre' = "[]",
          THEN conjunct2, THEN conjunct1])
  then have "\<exists>tr report.
      bisect_loop EB ARGS0 ''mypy'' [P5] OLD5 \<lparr>known_good = 0, known_bad = 4\<rparr> []
        = Some (tr, Inr ()) \<and>
      1 \<le> steps tr \<and> steps tr \<le> 2 \<and>
      last tr = Print report \<and> sublist ''first bad commit'' report"
    by (simp add: c i EB_def numeral_2_eq_2)
  moreover have "interval_size (record_verdict ''good'' \<lparr>known_good = 0, known_bad = 4\<rparr>) = 2"
    by (simp add: size_record_verdict i)
  moreover have "name P5 \<in> dom OLD5" using k by simp
  ultimately show ?thesis by blast
qed


end
